theory Spec2Isabelle
  imports Main "HOL-Library.AList"
begin

section \<open>Python strings\<close>

text \<open>
  A Python \<open>str\<close> is modelled as a \<open>string\<close> whose characters are read as ASCII code
  points. Character classes (\<open>isspace\<close>, \<open>\d\<close>, \<open>\w\<close>, cased letters) are the ASCII part of
  Python's Unicode classes; characters from 128 on are in none of them and have no case.
\<close>

definition code :: "char \<Rightarrow> int" where
  "code c = of_char c"

definition is_space :: "char \<Rightarrow> bool" where
  "is_space c =
     (c \<in> set [CHR 0x09, CHR 0x0A, CHR 0x0B, CHR 0x0C, CHR 0x0D,
                CHR 0x1C, CHR 0x1D, CHR 0x1E, CHR 0x1F, CHR 0x20])"

definition is_digit :: "char \<Rightarrow> bool" where
  "is_digit c = (let n = code c in 48 \<le> n \<and> n \<le> 57)"

definition is_upper :: "char \<Rightarrow> bool" where
  "is_upper c = (let n = code c in 65 \<le> n \<and> n \<le> 90)"

definition is_lower :: "char \<Rightarrow> bool" where
  "is_lower c = (let n = code c in 97 \<le> n \<and> n \<le> 122)"

definition is_word :: "char \<Rightarrow> bool" where
  "is_word c = (is_upper c \<or> is_lower c \<or> is_digit c \<or> c = CHR ''_'')"

definition to_lower :: "char \<Rightarrow> char" where
  "to_lower c = (if is_upper c then char_of (code c + 32) else c)"

definition to_upper :: "char \<Rightarrow> char" where
  "to_upper c = (if is_lower c then char_of (code c - 32) else c)"

text \<open>\<open>s.lower()\<close>\<close>

definition lower :: "string \<Rightarrow> string" where
  "lower s = map to_lower s"

text \<open>\<open>s.strip()\<close>\<close>

definition strip :: "string \<Rightarrow> string" where
  "strip s = rev (dropWhile is_space (rev (dropWhile is_space s)))"

text \<open>\<open>s.title()\<close>: the flag says whether the previous character was a cased letter.\<close>

fun title_from :: "bool \<Rightarrow> string \<Rightarrow> string" where
  "title_from prev [] = []"
| "title_from prev (c # cs) =
     (if is_lower c then (if prev then c else to_upper c) # title_from True cs
      else if is_upper c then (if prev then to_lower c else c) # title_from True cs
      else c # title_from False cs)"

definition title :: "string \<Rightarrow> string" where
  "title s = title_from False s"

text \<open>\<open>s.startswith(p)\<close>\<close>

fun startswith :: "string \<Rightarrow> string \<Rightarrow> bool" where
  "startswith s [] = True"
| "startswith [] (p # ps) = False"
| "startswith (c # cs) (p # ps) = (if c = p then startswith cs ps else False)"

text \<open>The same under \<open>re.I\<close>: two characters agree when their lower cases do.\<close>

fun startswith_ci :: "string \<Rightarrow> string \<Rightarrow> bool" where
  "startswith_ci s [] = True"
| "startswith_ci [] (p # ps) = False"
| "startswith_ci (c # cs) (p # ps) =
     (if to_lower c = to_lower p then startswith_ci cs ps else False)"

text \<open>\<open>sub in s\<close>\<close>

fun contains :: "string \<Rightarrow> string \<Rightarrow> bool" where
  "contains [] sub = (sub = [])"
| "contains (c # cs) sub = (if startswith (c # cs) sub then True else contains cs sub)"

text \<open>
  Splitting at every character of a class: \<open>s.split(sep)\<close> for a one-character separator and
  \<open>re.split\<close> on a character class. The result always has one piece more than there are
  separators; \<open>cur\<close> is the piece being read.
\<close>

fun split_at :: "(char \<Rightarrow> bool) \<Rightarrow> string \<Rightarrow> string \<Rightarrow> string list" where
  "split_at sep cur [] = [cur]"
| "split_at sep cur (c # cs) =
     (if sep c then cur # split_at sep [] cs else split_at sep (cur @ [c]) cs)"

definition split_on :: "char \<Rightarrow> string \<Rightarrow> string list" where
  "split_on d s = split_at (\<lambda>c. c = d) [] s"

text \<open>\<open>s.split()\<close>: the maximal runs of non-whitespace characters.\<close>

definition split_ws :: "string \<Rightarrow> string list" where
  "split_ws s = filter (\<lambda>p. p \<noteq> []) (split_at is_space [] s)"

text \<open>\<open>sep.join(parts)\<close>\<close>

fun join :: "string \<Rightarrow> string list \<Rightarrow> string" where
  "join sep [] = []"
| "join sep [p] = p"
| "join sep (p # q # ps) = p @ sep @ join sep (q # ps)"

text \<open>\<open>s.replace("\n", " ")\<close>\<close>

definition replace_newlines :: "string \<Rightarrow> string" where
  "replace_newlines s = map (\<lambda>c. if c = CHR 0x0A then CHR '' '' else c) s"

section \<open>Regular expressions\<close>

text \<open>
  The fragment of Python's \<open>re\<close> the program uses: literals (optionally under \<open>re.I\<close>),
  greedy and lazy repetition of a character class, sequence, alternation and \<open>\b\<close>. The
  matcher is the backtracking one: \<open>rx_ends r s i\<close> lists the positions where a match of
  \<open>r\<close> starting at position \<open>i\<close> of \<open>s\<close> can end, in the order in which backtracking tries
  them, so the match \<open>re\<close> reports is the head of the list.
\<close>

datatype rx =
    Lit string
  | LitI string
  | Rep "char \<Rightarrow> bool" nat "nat option"
  | RepLazy "char \<Rightarrow> bool" nat "nat option"
  | Seq rx rx
  | Alt rx rx
  | WordB

definition word_at :: "string \<Rightarrow> nat \<Rightarrow> bool" where
  "word_at s i = (i < length s \<and> is_word (s ! i))"

definition word_boundary :: "string \<Rightarrow> nat \<Rightarrow> bool" where
  "word_boundary s i = ((i > 0 \<and> word_at s (i - 1)) \<noteq> word_at s i)"

definition rep_max :: "(char \<Rightarrow> bool) \<Rightarrow> nat option \<Rightarrow> string \<Rightarrow> nat \<Rightarrow> nat" where
  "rep_max cls n s i =
     (let run = length (takeWhile cls (drop i s))
      in case n of None \<Rightarrow> run | Some m \<Rightarrow> min run m)"

fun rx_ends :: "rx \<Rightarrow> string \<Rightarrow> nat \<Rightarrow> nat list" where
  "rx_ends (Lit l) s i = (if startswith (drop i s) l then [i + length l] else [])"
| "rx_ends (LitI l) s i =
     (if startswith_ci (drop i s) l then [i + length l] else [])"
| "rx_ends (Rep cls m n) s i =
     (let k = rep_max cls n s i in if k < m then [] else rev [i + m ..< Suc (i + k)])"
| "rx_ends (RepLazy cls m n) s i =
     (let k = rep_max cls n s i in if k < m then [] else [i + m ..< Suc (i + k)])"
| "rx_ends (Seq a b) s i = concat (map (rx_ends b s) (rx_ends a s i))"
| "rx_ends (Alt a b) s i = rx_ends a s i @ rx_ends b s i"
| "rx_ends WordB s i = (if word_boundary s i then [i] else [])"

text \<open>The match at a position, as the span \<open>(start, end)\<close>.\<close>

definition match_at :: "rx \<Rightarrow> string \<Rightarrow> nat \<Rightarrow> (nat \<times> nat) option" where
  "match_at r s i = (case rx_ends r s i of [] \<Rightarrow> None | e # _ \<Rightarrow> Some (i, e))"

text \<open>\<open>re.search\<close>: the match at the leftmost position that has one.\<close>

fun first_match :: "rx \<Rightarrow> string \<Rightarrow> nat list \<Rightarrow> (nat \<times> nat) option" where
  "first_match r s [] = None"
| "first_match r s (i # is) =
     (case match_at r s i of Some m \<Rightarrow> Some m | None \<Rightarrow> first_match r s is)"

definition re_search :: "rx \<Rightarrow> string \<Rightarrow> (nat \<times> nat) option" where
  "re_search r s = first_match r s [0 ..< Suc (length s)]"

text \<open>
  \<open>re.finditer\<close>: the scan goes on behind each match. \<open>next\<close> is the position where the scan
  resumes. Every pattern of the program matches at least one character.
\<close>

fun scan_matches :: "rx \<Rightarrow> string \<Rightarrow> nat \<Rightarrow> nat list \<Rightarrow> (nat \<times> nat) list" where
  "scan_matches r s next [] = []"
| "scan_matches r s next (i # is) =
     (if i < next then scan_matches r s next is
      else case match_at r s i of
             None \<Rightarrow> scan_matches r s next is
           | Some (a, e) \<Rightarrow> (a, e) # scan_matches r s (max e (Suc i)) is)"

definition re_finditer :: "rx \<Rightarrow> string \<Rightarrow> (nat \<times> nat) list" where
  "re_finditer r s = scan_matches r s 0 [0 ..< Suc (length s)]"

definition slice :: "string \<Rightarrow> nat \<times> nat \<Rightarrow> string" where
  "slice s m = take (snd m - fst m) (drop (fst m) s)"

text \<open>\<open>re.findall\<close> for a pattern without groups.\<close>

definition re_findall :: "rx \<Rightarrow> string \<Rightarrow> string list" where
  "re_findall r s = map (slice s) (re_finditer r s)"

text \<open>\<open>re.sub(pattern, repl, s)\<close> for a replacement without group references.\<close>

fun sub_spans :: "string \<Rightarrow> string \<Rightarrow> nat \<Rightarrow> (nat \<times> nat) list \<Rightarrow> string" where
  "sub_spans repl s pos [] = drop pos s"
| "sub_spans repl s pos ((a, e) # ms) =
     take (a - pos) (drop pos s) @ repl @ sub_spans repl s e ms"

definition re_sub :: "rx \<Rightarrow> string \<Rightarrow> string \<Rightarrow> string" where
  "re_sub r repl s = sub_spans repl s 0 (re_finditer r s)"

text \<open>
  \<open>re.search\<close> for a pattern \<open>(pre)post\<close>, giving the span of group 1: backtracking tries
  the ends of \<open>pre\<close> in order and keeps the first one behind which \<open>post\<close> matches.
\<close>

definition group1_at :: "rx \<Rightarrow> rx \<Rightarrow> string \<Rightarrow> nat \<Rightarrow> (nat \<times> nat) option" where
  "group1_at pre post s i =
     (case filter (\<lambda>e. rx_ends post s e \<noteq> []) (rx_ends pre s i) of
        [] \<Rightarrow> None | e # _ \<Rightarrow> Some (i, e))"

fun first_group1 :: "rx \<Rightarrow> rx \<Rightarrow> string \<Rightarrow> nat list \<Rightarrow> (nat \<times> nat) option" where
  "first_group1 pre post s [] = None"
| "first_group1 pre post s (i # is) =
     (case group1_at pre post s i of Some m \<Rightarrow> Some m | None \<Rightarrow> first_group1 pre post s is)"

definition re_search_group1 :: "rx \<Rightarrow> rx \<Rightarrow> string \<Rightarrow> string option" where
  "re_search_group1 pre post s =
     map_option (slice s) (first_group1 pre post s [0 ..< Suc (length s)])"

section \<open>Data\<close>

text \<open>
  A Python \<open>dict\<close> with string keys is an association list in insertion order, read with
  \<open>map_of\<close> and written with \<open>AList.update\<close> (an existing key keeps its place, a new one goes
  to the end). A spreadsheet or JSON cell is a text or some other value (a number, NaN, a
  date), of which the model keeps an identifier only.
\<close>

type_synonym 'v dict = "(string \<times> 'v) list"

datatype cell = Text string | Opaque nat

text \<open>\<open>d.get(k, default)\<close>\<close>

definition dict_get :: "'v dict \<Rightarrow> string \<Rightarrow> 'v \<Rightarrow> 'v" where
  "dict_get d k dflt = (case map_of d k of None \<Rightarrow> dflt | Some v \<Rightarrow> v)"

text \<open>The dictionary \<open>{"District": "", "Address": "", "Tel": "", "Email": ""}\<close>.\<close>

record page_info =
  District :: string
  Address :: string
  Tel :: string
  Email :: string

definition empty_info :: page_info where
  "empty_info = \<lparr>District = [], Address = [], Tel = [], Email = []\<rparr>"

text \<open>
  What BeautifulSoup gives for a fetched document: the text of the first
  \<open><p class="loc-icon">\<close> (joined with \<open>", "\<close>) if there is one, the visible text joined with
  newlines, and the \<open>href\<close> of every anchor that has one, in document order.
\<close>

record page =
  loc_icon :: "string option"
  page_text :: string
  hrefs :: "string list"

text \<open>
  The answer to \<open>requests.get\<close>: the request itself fails, \<open>raise_for_status\<close> fails, the
  parser fails, or there is a document.
\<close>

datatype http_reply = Transport_error | Status_error | Unparsable | Html page

text \<open>
  The answer to the search request: the same failures (\<open>response.json()\<close> for the parser),
  or a JSON object whose \<open>organic\<close> entry, if present, is a list of objects with string
  values.
\<close>

datatype search_reply =
    Search_transport_error
  | Search_status_error
  | Search_bad_json
  | Body "(string dict list) option"

text \<open>
  Exceptions. All but \<open>KeyboardInterrupt\<close> are subclasses of \<open>Exception\<close>; \<open>HTTPError\<close> and
  \<open>ConnectionError\<close> are subclasses of \<open>RequestException\<close>. An interrupt arriving from
  outside is not part of the model: no step of it raises \<open>KeyboardInterrupt\<close>.
\<close>

datatype exn =
    ConnectionError
  | HTTPError
  | ParserError
  | ValueError
  | KeyError
  | AttributeError
  | KeyboardInterrupt

definition is_RequestException :: "exn \<Rightarrow> bool" where
  "is_RequestException e = (e = ConnectionError \<or> e = HTTPError)"

definition is_Exception :: "exn \<Rightarrow> bool" where
  "is_Exception e = (e \<noteq> KeyboardInterrupt)"

datatype 'a outcome = Returned 'a | Raised exn

text \<open>
  The world outside the program. Network answers may change with time, which is the number
  of events so far. \<open>urljoin\<close> is \<open>None\<close> where \<open>requests.compat.urljoin\<close> raises
  \<open>ValueError\<close>. \<open>phone_match\<close> is the first match of
  \<open>phonenumbers.PhoneNumberMatcher(fragment, "IN")\<close> in international format. \<open>py_str\<close> is
  \<open>str\<close> on a cell that is not a text. \<open>writable\<close> says whether an output file can be opened
  for writing at a time; \<open>json_ok\<close> and \<open>excel_ok\<close> say whether \<open>json.dump\<close> and \<open>to_excel\<close>
  can write a cell that is not a text.
\<close>

record world =
  search_api :: "nat \<Rightarrow> string \<Rightarrow> search_reply"
  http_get :: "nat \<Rightarrow> string \<Rightarrow> http_reply"
  urljoin :: "string \<Rightarrow> string \<Rightarrow> string option"
  phone_match :: "string \<Rightarrow> string option"
  py_str :: "nat \<Rightarrow> string"
  writable :: "nat \<Rightarrow> bool"
  json_ok :: "nat \<Rightarrow> bool"
  excel_ok :: "nat \<Rightarrow> bool"

section \<open>Field extraction\<close>

definition any_char :: "char \<Rightarrow> bool" where
  "any_char c = (c \<noteq> CHR 0x0A)"

text \<open>\<open>\b[A-Za-z0-9._%+-]+@[A-Za-z0-9.-]+\.[A-Z|a-z]{2,}\b\<close>\<close>

definition email_rx :: rx where
  "email_rx =
     Seq WordB
      (Seq (Rep (\<lambda>c. is_upper c \<or> is_lower c \<or> is_digit c \<or> c \<in> set ''._%+-'') 1 None)
      (Seq (Lit ''@'')
      (Seq (Rep (\<lambda>c. is_upper c \<or> is_lower c \<or> is_digit c \<or> c \<in> set ''.-'') 1 None)
      (Seq (Lit ''.'')
      (Seq (Rep (\<lambda>c. is_upper c \<or> c = CHR ''|'' \<or> is_lower c) 2 None)
       WordB)))))"

text \<open>\<open>\d{1,4}.*(\<close> + \<open>re.escape(state_ut)\<close> + \<open>)\<close> with \<open>re.I\<close>\<close>

definition address_rx :: "string \<Rightarrow> rx" where
  "address_rx state_ut =
     Seq (Rep is_digit 1 (Some 4)) (Seq (Rep any_char 0 None) (LitI state_ut))"

text \<open>\<open>\b(district|dist|dt\.?)\b\<close> with \<open>re.I\<close>\<close>

definition district_line_rx :: rx where
  "district_line_rx =
     Seq WordB
      (Seq (Alt (LitI ''district'')
           (Alt (LitI ''dist'')
                (Seq (LitI ''dt'') (Rep (\<lambda>c. c = CHR ''.'') 0 (Some 1)))))
       WordB)"

text \<open>\<open>(?i)district[:\s-]*\<close>\<close>

definition district_word_rx :: rx where
  "district_word_rx =
     Seq (LitI ''district'') (Rep (\<lambda>c. c = CHR '':'' \<or> is_space c \<or> c = CHR ''-'') 0 None)"

text \<open>\<open>(?i)district[:\s-]*|opening of the new|reg|government of|india\<close>\<close>

definition boilerplate_rx :: rx where
  "boilerplate_rx =
     Alt district_word_rx
      (Alt (LitI ''opening of the new'')
      (Alt (LitI ''reg'')
      (Alt (LitI ''government of'')
           (LitI ''india''))))"

text \<open>\<open>(.+?),?\s*\<close> + \<open>re.escape(state_ut)\<close> with \<open>re.I\<close>: the group, and what follows it.\<close>

definition guess_group_rx :: rx where
  "guess_group_rx = RepLazy any_char 1 None"

definition guess_rest_rx :: "string \<Rightarrow> rx" where
  "guess_rest_rx state_ut =
     Seq (Rep (\<lambda>c. c = CHR '','') 0 (Some 1)) (Seq (Rep is_space 0 None) (LitI state_ut))"

text \<open>The first e-mail address that is not on a social network.\<close>

definition extract_email :: "string \<Rightarrow> string" where
  "extract_email text =
     (case find (\<lambda>e. \<not> list_ex (\<lambda>d. contains (lower e) d) [''facebook.com'', ''twitter.com''])
             (re_findall email_rx text) of
        None \<Rightarrow> [] | Some e \<Rightarrow> e)"

text \<open>The loop over \<open>re.split(r"[\/,]", text)\<close>, left at the first non-empty number.\<close>

fun phone_scan :: "world \<Rightarrow> string list \<Rightarrow> string" where
  "phone_scan w [] = []"
| "phone_scan w (raw_number # rest) =
     (let tel = (case phone_match w raw_number of None \<Rightarrow> [] | Some t \<Rightarrow> t)
      in if tel \<noteq> [] then tel else phone_scan w rest)"

definition extract_tel :: "world \<Rightarrow> string \<Rightarrow> string" where
  "extract_tel w text =
     phone_scan w (split_at (\<lambda>c. c = CHR ''/'' \<or> c = CHR '','') [] text)"

text \<open>\<open>[line.strip() for line in text.split("\n") if line.strip()]\<close>\<close>

definition text_lines :: "string \<Rightarrow> string list" where
  "text_lines text = filter (\<lambda>l. l \<noteq> []) (map strip (split_on (CHR 0x0A) text))"

definition is_address_line :: "string \<Rightarrow> string \<Rightarrow> bool" where
  "is_address_line state_ut line =
     (state_ut \<noteq> [] \<and> re_search (address_rx state_ut) line \<noteq> None)"

subsection \<open>\<open>data_augmentation.py\<close>\<close>

text \<open>The loop over the lines that fills \<open>info["Address"]\<close> and \<open>address_candidates\<close>.\<close>

fun address_scan :: "string \<Rightarrow> string list \<Rightarrow> string \<times> string list \<Rightarrow> string \<times> string list" where
  "address_scan state_ut [] acc = acc"
| "address_scan state_ut (line # rest) (address, candidates) =
     (if is_address_line state_ut line
      then address_scan state_ut rest
             (if address = [] then line else address, candidates @ [line])
      else address_scan state_ut rest (address, candidates))"

definition address_candidates :: "string \<Rightarrow> string \<Rightarrow> string list" where
  "address_candidates text state_ut = snd (address_scan state_ut (text_lines text) ([], []))"

definition is_district_line :: "string \<Rightarrow> bool" where
  "is_district_line line = (re_search district_line_rx line \<noteq> None)"

text \<open>The district line with the boilerplate removed, cut at the commas.\<close>

definition district_parts :: "string \<Rightarrow> string list" where
  "district_parts district =
     filter (\<lambda>p. p \<noteq> []) (map strip (split_on (CHR '','') (re_sub boilerplate_rx [] district)))"

definition extract_district :: "string \<Rightarrow> string \<Rightarrow> string" where
  "extract_district text state_ut =
     (case find is_district_line (text_lines text) of
        Some district \<Rightarrow>
          (let parts = district_parts district
           in if parts \<noteq> [] then title (last parts) else [])
      | None \<Rightarrow>
          (case address_candidates text state_ut of
             [] \<Rightarrow> []
           | addr_line # _ \<Rightarrow>
               (case re_search_group1 guess_group_rx (guess_rest_rx state_ut) addr_line of
                  None \<Rightarrow> []
                | Some g \<Rightarrow> title (strip (last (split_on (CHR '','') g))))))"

definition extract_info :: "world \<Rightarrow> string \<Rightarrow> string \<Rightarrow> page_info" where
  "extract_info w text state_ut =
     \<lparr>District = extract_district text state_ut,
      Address = fst (address_scan state_ut (text_lines text) ([], [])),
      Tel = extract_tel w text,
      Email = extract_email text\<rparr>"

subsection \<open>\<open>Data_Augumentation/data_scrap.py\<close>\<close>

text \<open>One loop fills \<open>info["Address"]\<close> and \<open>info["District"]\<close>.\<close>

fun line_scan :: "string \<Rightarrow> string list \<Rightarrow> string \<times> string \<Rightarrow> string \<times> string" where
  "line_scan state_ut [] acc = acc"
| "line_scan state_ut (line # rest) (address, district) =
     (let address' = (if address = [] \<and> is_address_line state_ut line then line else address);
          district' =
            (if district = [] \<and> contains (lower line) ''district'' \<and> length line < 100
             then title (strip (re_sub district_word_rx [] line))
             else district)
      in line_scan state_ut rest (address', district'))"

definition extract_info_ds :: "world \<Rightarrow> string \<Rightarrow> string \<Rightarrow> page_info" where
  "extract_info_ds w text state_ut =
     (let (address, district) = line_scan state_ut (text_lines text) ([], [])
      in \<lparr>District = district, Address = address,
          Tel = extract_tel w text, Email = extract_email text\<rparr>)"

section \<open>The scraper's state\<close>

datatype log_line =
    Top_sites string "string list"
  | Search_attempt_failed nat string
  | No_websites_found string
  | Request_failed string
  | Failed_to_scrape string
  | Already_processed nat string
  | Processing nat string string
  | Final_merged string bool bool bool bool
  | Data_saved
  | Error_saving_json
  | Loading_excel
  | Loaded_records nat
  | Resuming nat nat
  | Interrupted
  | Error_processing_row nat
  | Excel_saved
  | Error_saving_excel
  | No_data_to_save
  | Process_completed nat

text \<open>What the program does to the world, in order.\<close>

datatype event =
    Search_request string
  | Page_request string
  | Sleep nat
  | Print log_line

text \<open>
  What an output file holds: the records of a write that ended, or the beginning of a
  document whose write stopped at a cell it could not write.
\<close>

datatype file_content = Records "cell dict list" | Partial

text \<open>
  \<open>processed_data\<close> is the attribute of that name, \<open>json_file\<close> the checkpoint file and
  \<open>excel_file\<close> the table written at the end of a run, if it was written.
\<close>

record scraper =
  processed_data :: "cell dict list"
  json_file :: file_content
  excel_file :: "file_content option"
  trace :: "event list"

definition emit :: "event \<Rightarrow> scraper \<Rightarrow> scraper" where
  "emit e s = s\<lparr>trace := trace s @ [e]\<rparr>"

definition now :: "scraper \<Rightarrow> nat" where
  "now s = length (trace s)"

text \<open>
  \<open>__init__\<close> after \<open>load_existing_data\<close> has read the records of the JSON file; no
  record and \<open>Records []\<close> when there is no file yet.
\<close>

definition init_scraper :: "cell dict list \<Rightarrow> scraper" where
  "init_scraper existing =
     \<lparr>processed_data = existing, json_file = Records existing, excel_file = None,
      trace = []\<rparr>"

text \<open>Whether a writer can write every cell of the records.\<close>

definition can_write :: "(nat \<Rightarrow> bool) \<Rightarrow> cell dict list \<Rightarrow> bool" where
  "can_write ok records =
     list_all (\<lambda>record. list_all (\<lambda>kv. case snd kv of Text t \<Rightarrow> True | Opaque n \<Rightarrow> ok n) record)
       records"

text \<open>
  \<open>save_to_json\<close>: when \<open>open\<close> raises, the file stays as it was; when \<open>json.dump\<close> raises,
  the file, opened with \<open>"w"\<close>, holds what was written before. Both exceptions are caught
  and printed.
\<close>

definition save_to_json :: "world \<Rightarrow> scraper \<Rightarrow> scraper" where
  "save_to_json w s =
     (if \<not> writable w (now s) then emit (Print Error_saving_json) s
      else if can_write (json_ok w) (processed_data s)
      then emit (Print Data_saved) (s\<lparr>json_file := Records (processed_data s)\<rparr>)
      else emit (Print Error_saving_json) (s\<lparr>json_file := Partial\<rparr>))"

text \<open>\<open>save_to_excel\<close>, with the same two ways to fail.\<close>

definition save_to_excel :: "world \<Rightarrow> scraper \<Rightarrow> scraper" where
  "save_to_excel w s =
     (if processed_data s \<noteq> []
      then (if \<not> writable w (now s) then emit (Print Error_saving_excel) s
            else if can_write (excel_ok w) (processed_data s)
            then emit (Print Excel_saved) (s\<lparr>excel_file := Some (Records (processed_data s))\<rparr>)
            else emit (Print Error_saving_excel) (s\<lparr>excel_file := Some Partial\<rparr>))
      else emit (Print No_data_to_save) s)"

section \<open>Duplicate check\<close>

text \<open>\<open>v.strip().lower()\<close> on a cell: a value that is not a text has no \<open>strip\<close>.\<close>

definition strip_lower :: "cell \<Rightarrow> string outcome" where
  "strip_lower c = (case c of Text t \<Rightarrow> Returned (lower (strip t)) | Opaque n \<Rightarrow> Raised AttributeError)"

fun is_already_processed :: "cell dict list \<Rightarrow> string \<Rightarrow> string \<Rightarrow> bool outcome" where
  "is_already_processed [] school_name state_ut = Returned False"
| "is_already_processed (record # rest) school_name state_ut =
     (case strip_lower (dict_get record ''School'' (Text [])) of
        Raised e \<Rightarrow> Raised e
      | Returned a \<Rightarrow>
          if a = lower (strip school_name)
          then (case strip_lower (dict_get record ''State/UT'' (Text [])) of
                  Raised e \<Rightarrow> Raised e
                | Returned b \<Rightarrow>
                    if b = lower (strip state_ut) then Returned True
                    else is_already_processed rest school_name state_ut)
          else is_already_processed rest school_name state_ut)"

section \<open>Website search\<close>

definition blacklist :: "string list" where
  "blacklist = [''indiastudychannel.com'']"

text \<open>The loop over \<open>result["organic"]\<close>, with its \<open>break\<close>.\<close>

fun collect_links :: "string dict list \<Rightarrow> string list \<Rightarrow> string list" where
  "collect_links [] websites = websites"
| "collect_links (item # rest) websites =
     (let link = dict_get item ''link'' [];
          websites' =
            (if link \<noteq> [] \<and> \<not> list_ex (\<lambda>bad. contains link bad) blacklist
             then (if startswith link ''http://'' \<or> startswith link ''https://''
                   then websites @ [link] else websites)
             else websites)
      in if length websites' = 5 then websites' else collect_links rest websites')"

text \<open>The body of the \<open>try\<close> up to the test \<open>if websites\<close>, at time \<open>t\<close>.\<close>

definition search_request :: "world \<Rightarrow> string \<Rightarrow> nat \<Rightarrow> string list outcome" where
  "search_request w query_text t =
     (case search_api w t query_text of
        Search_transport_error \<Rightarrow> Raised ConnectionError
      | Search_status_error \<Rightarrow> Raised HTTPError
      | Search_bad_json \<Rightarrow> Raised ValueError
      | Body organic \<Rightarrow>
          Returned (case organic of
                      None \<Rightarrow> []
                    | Some items \<Rightarrow> if items \<noteq> [] then collect_links items [] else []))"

text \<open>The loop \<open>for attempt in range(retries)\<close> and what follows it.\<close>

fun search_attempts ::
  "world \<Rightarrow> string \<Rightarrow> string \<Rightarrow> nat \<Rightarrow> nat list \<Rightarrow> scraper \<Rightarrow> string list \<times> scraper" where
  "search_attempts w name query_text retries [] s =
     ([], emit (Print (No_websites_found name)) s)"
| "search_attempts w name query_text retries (attempt # rest) s =
     (let s1 = emit (Search_request query_text) s;
          r = search_request w query_text (now s)
      in case r of
           Returned (u # us) \<Rightarrow> (u # us, emit (Print (Top_sites name (u # us))) s1)
         | _ \<Rightarrow>
           (let s2 = (case r of
                        Raised e \<Rightarrow> emit (Print (Search_attempt_failed (attempt + 1) name)) s1
                      | _ \<Rightarrow> s1);
                s3 = (if attempt < retries - 1 then emit (Sleep 2) s2 else s2)
            in search_attempts w name query_text retries rest s3))"

text \<open>\<open>" ".join(s.split())\<close>\<close>

definition collapse :: "string \<Rightarrow> string" where
  "collapse s = join '' '' (split_ws s)"

text \<open>\<open>f"{school_name_clean} {state_ut_clean} official website"\<close>\<close>

definition query_text :: "string \<Rightarrow> string \<Rightarrow> string" where
  "query_text school_name state_ut =
     collapse school_name @ '' '' @ collapse state_ut @ '' official website''"

definition search_school_websites ::
  "world \<Rightarrow> string \<Rightarrow> string \<Rightarrow> nat \<Rightarrow> scraper \<Rightarrow> string list \<times> scraper" where
  "search_school_websites w school_name state_ut retries s =
     search_attempts w (collapse school_name) (query_text school_name state_ut)
       retries [0 ..< retries] s"

section \<open>Page scraper\<close>

text \<open>
  \<open>requests.get\<close>, \<open>raise_for_status\<close> and the parser, as one step: the document, or the
  exception of the step that fails.
\<close>

definition fetch :: "world \<Rightarrow> string \<Rightarrow> scraper \<Rightarrow> page outcome \<times> scraper" where
  "fetch w url s =
     (case http_get w (now s) url of
        Transport_error \<Rightarrow> Raised ConnectionError
      | Status_error \<Rightarrow> Raised HTTPError
      | Unparsable \<Rightarrow> Raised ParserError
      | Html pg \<Rightarrow> Returned pg,
      emit (Page_request url) s)"

definition link_keywords :: "string list" where
  "link_keywords = [''contact'', ''about'', ''reach-us'', ''address'']"

definition is_subpage_link :: "string \<Rightarrow> bool" where
  "is_subpage_link href = list_ex (\<lambda>k. contains (lower href) k) link_keywords"

text \<open>
  The link to follow: \<open>urljoin\<close> is called outside the inner \<open>try\<close>, so its \<open>ValueError\<close>
  leaves the loop over the anchors.
\<close>

definition resolve :: "world \<Rightarrow> string \<Rightarrow> string \<Rightarrow> string outcome" where
  "resolve w url href =
     (if \<not> startswith href ''http''
      then (case urljoin w url href of None \<Rightarrow> Raised ValueError | Some u \<Rightarrow> Returned u)
      else Returned href)"

subsection \<open>\<open>data_augmentation.py\<close>\<close>

text \<open>
  The merge \<open>if not info[key] and val: info[key] = val\<close> over the four keys, used for the
  subpages here and for the candidate sites in \<open>process_school\<close>.
\<close>

definition merge_missing :: "page_info \<Rightarrow> page_info \<Rightarrow> page_info" where
  "merge_missing info new_info =
     \<lparr>District = (if District info = [] \<and> District new_info \<noteq> []
                  then District new_info else District info),
      Address = (if Address info = [] \<and> Address new_info \<noteq> []
                 then Address new_info else Address info),
      Tel = (if Tel info = [] \<and> Tel new_info \<noteq> [] then Tel new_info else Tel info),
      Email = (if Email info = [] \<and> Email new_info \<noteq> []
               then Email new_info else Email info)\<rparr>"

text \<open>
  The loop over the anchors. The result holds the exception that left the loop, if any,
  with \<open>info\<close> as it was then.
\<close>

fun follow_links ::
  "world \<Rightarrow> string \<Rightarrow> string \<Rightarrow> string list \<Rightarrow> page_info \<times> scraper
     \<Rightarrow> exn option \<times> page_info \<times> scraper" where
  "follow_links w url state_ut [] (info, s) = (None, info, s)"
| "follow_links w url state_ut (href # rest) (info, s) =
     (if is_subpage_link href
      then (case resolve w url href of
              Raised e \<Rightarrow> (Some e, info, s)
            | Returned target \<Rightarrow>
                (case fetch w target s of
                   (Returned pg, s1) \<Rightarrow>
                     follow_links w url state_ut rest
                       (merge_missing info (extract_info w (page_text pg) state_ut), s1)
                 | (Raised e, s1) \<Rightarrow> follow_links w url state_ut rest (info, s1)))
      else follow_links w url state_ut rest (info, s))"

text \<open>The body of the outer \<open>try\<close>. \<open>info.update\<close> writes all four keys.\<close>

definition scrape_try ::
  "world \<Rightarrow> string \<Rightarrow> string \<Rightarrow> scraper \<Rightarrow> exn option \<times> page_info \<times> scraper" where
  "scrape_try w url state_ut s =
     (case fetch w url s of
        (Raised e, s1) \<Rightarrow> (Some e, empty_info, s1)
      | (Returned soup, s1) \<Rightarrow>
          (let info1 = (case loc_icon soup of
                          Some a \<Rightarrow> empty_info\<lparr>Address := a\<rparr>
                        | None \<Rightarrow> empty_info);
               info2 = extract_info w (page_text soup) state_ut
           in follow_links w url state_ut (hrefs soup) (info2, s1)))"

text \<open>The two handlers; an exception that neither catches goes to the caller.\<close>

definition scrape_handlers ::
  "string \<Rightarrow> exn option \<times> page_info \<times> scraper \<Rightarrow> page_info outcome \<times> scraper" where
  "scrape_handlers url r =
     (case r of
        (None, info, s) \<Rightarrow> (Returned info, s)
      | (Some e, info, s) \<Rightarrow>
          if is_RequestException e then (Returned info, emit (Print (Request_failed url)) s)
          else if is_Exception e then (Returned info, emit (Print (Failed_to_scrape url)) s)
          else (Raised e, s))"

definition scrape_school_info ::
  "world \<Rightarrow> string \<Rightarrow> string \<Rightarrow> scraper \<Rightarrow> page_info outcome \<times> scraper" where
  "scrape_school_info w url state_ut s = scrape_handlers url (scrape_try w url state_ut s)"

subsection \<open>\<open>Data_Augumentation/data_scrap.py\<close>\<close>

text \<open>The merge over \<open>["Tel", "Email", "District"]\<close>.\<close>

definition merge_contact :: "page_info \<Rightarrow> page_info \<Rightarrow> page_info" where
  "merge_contact info new_info =
     info\<lparr>Tel := (if Tel new_info \<noteq> [] \<and> Tel info = [] then Tel new_info else Tel info),
          Email := (if Email new_info \<noteq> [] \<and> Email info = []
                    then Email new_info else Email info),
          District := (if District new_info \<noteq> [] \<and> District info = []
                       then District new_info else District info)\<rparr>"

definition add_address :: "page_info \<Rightarrow> string list \<Rightarrow> string list" where
  "add_address new_info addresses =
     (if Address new_info \<noteq> [] then addresses @ [Address new_info] else addresses)"

fun follow_links_ds ::
  "world \<Rightarrow> string \<Rightarrow> string \<Rightarrow> string list \<Rightarrow> page_info \<times> string list \<times> scraper
     \<Rightarrow> exn option \<times> page_info \<times> string list \<times> scraper" where
  "follow_links_ds w url state_ut [] (info, addresses, s) = (None, info, addresses, s)"
| "follow_links_ds w url state_ut (href # rest) (info, addresses, s) =
     (if is_subpage_link href
      then (case resolve w url href of
              Raised e \<Rightarrow> (Some e, info, addresses, s)
            | Returned target \<Rightarrow>
                (case fetch w target s of
                   (Returned pg, s1) \<Rightarrow>
                     (let new_info = extract_info_ds w (page_text pg) state_ut
                      in follow_links_ds w url state_ut rest
                           (merge_contact info new_info, add_address new_info addresses, s1))
                 | (Raised e, s1) \<Rightarrow>
                     follow_links_ds w url state_ut rest (info, addresses, s1)))
      else follow_links_ds w url state_ut rest (info, addresses, s))"

text \<open>\<open>\s*\|\s*\<close> and \<open>\s+\<close>\<close>

definition pipe_rx :: rx where
  "pipe_rx = Seq (Rep is_space 0 None) (Seq (Lit ''|'') (Rep is_space 0 None))"

definition spaces_rx :: rx where
  "spaces_rx = Rep is_space 1 None"

definition clean_address :: "string \<Rightarrow> string" where
  "clean_address addr = strip (re_sub spaces_rx '' '' (re_sub pipe_rx '', '' addr))"

fun clean_addresses :: "string list \<Rightarrow> string list \<Rightarrow> string list" where
  "clean_addresses [] acc = acc"
| "clean_addresses (addr # rest) acc =
     (let addr' = clean_address addr
      in clean_addresses rest (if addr' \<notin> set acc then acc @ [addr'] else acc))"

definition scrape_try_ds ::
  "world \<Rightarrow> string \<Rightarrow> string \<Rightarrow> scraper \<Rightarrow> exn option \<times> page_info \<times> scraper" where
  "scrape_try_ds w url state_ut s =
     (case fetch w url s of
        (Raised e, s1) \<Rightarrow> (Some e, empty_info, s1)
      | (Returned soup, s1) \<Rightarrow>
          (let addresses0 = (case loc_icon soup of Some a \<Rightarrow> [a] | None \<Rightarrow> []);
               page_info = extract_info_ds w (page_text soup) state_ut;
               addresses1 = add_address page_info addresses0;
               info1 = merge_contact empty_info page_info
           in case follow_links_ds w url state_ut (hrefs soup) (info1, addresses1, s1) of
                (Some e, info, addresses, s2) \<Rightarrow> (Some e, info, s2)
              | (None, info, addresses, s2) \<Rightarrow>
                  (None, info\<lparr>Address := join '' | '' (clean_addresses addresses [])\<rparr>, s2)))"

definition scrape_school_info_ds ::
  "world \<Rightarrow> string \<Rightarrow> string \<Rightarrow> scraper \<Rightarrow> page_info outcome \<times> scraper" where
  "scrape_school_info_ds w url state_ut s =
     scrape_handlers url (scrape_try_ds w url state_ut s)"

section \<open>Orchestrator\<close>

text \<open>The two files hold the same orchestrator over their own scraper.\<close>

datatype variant = Data_augmentation | Data_scrap

definition scrape ::
  "variant \<Rightarrow> world \<Rightarrow> string \<Rightarrow> string \<Rightarrow> scraper \<Rightarrow> page_info outcome \<times> scraper" where
  "scrape v = (case v of Data_augmentation \<Rightarrow> scrape_school_info
                       | Data_scrap \<Rightarrow> scrape_school_info_ds)"

text \<open>\<open>str(v)\<close> on a cell\<close>

definition str_of :: "world \<Rightarrow> cell \<Rightarrow> string" where
  "str_of w c = (case c of Text t \<Rightarrow> t | Opaque n \<Rightarrow> py_str w n)"

text \<open>\<open>record.update({"Website": "", "District": "", "Address": "", "Tel": "", "Email": ""})\<close>\<close>

definition blank_record :: "cell dict \<Rightarrow> cell dict" where
  "blank_record row_data =
     AList.update ''Email'' (Text [])
      (AList.update ''Tel'' (Text [])
       (AList.update ''Address'' (Text [])
        (AList.update ''District'' (Text [])
         (AList.update ''Website'' (Text []) row_data))))"

text \<open>\<open>record.update(merged_info)\<close>\<close>

definition update_info :: "page_info \<Rightarrow> cell dict \<Rightarrow> cell dict" where
  "update_info merged_info record =
     AList.update ''Email'' (Text (Email merged_info))
      (AList.update ''Tel'' (Text (Tel merged_info))
       (AList.update ''Address'' (Text (Address merged_info))
        (AList.update ''District'' (Text (District merged_info)) record)))"

text \<open>The loop over the candidate sites.\<close>

fun scrape_all ::
  "variant \<Rightarrow> world \<Rightarrow> string \<Rightarrow> string list \<Rightarrow> page_info \<times> scraper
     \<Rightarrow> page_info outcome \<times> scraper" where
  "scrape_all v w state_ut [] (merged_info, s) = (Returned merged_info, s)"
| "scrape_all v w state_ut (url # rest) (merged_info, s) =
     (case scrape v w url state_ut s of
        (Raised e, s1) \<Rightarrow> (Raised e, s1)
      | (Returned info, s1) \<Rightarrow>
          scrape_all v w state_ut rest (merge_missing merged_info info, s1))"

definition append_record :: "cell dict \<Rightarrow> scraper \<Rightarrow> scraper" where
  "append_record record s = s\<lparr>processed_data := processed_data s @ [record]\<rparr>"

definition process_school ::
  "variant \<Rightarrow> world \<Rightarrow> cell dict \<Rightarrow> nat \<Rightarrow> nat \<Rightarrow> scraper \<Rightarrow> unit outcome \<times> scraper" where
  "process_school v w row_data index total_rows s =
     (case map_of row_data ''School'' of
        None \<Rightarrow> (Raised KeyError, s)
      | Some school_cell \<Rightarrow>
     (case map_of row_data ''State/UT'' of
        None \<Rightarrow> (Raised KeyError, s)
      | Some state_cell \<Rightarrow>
     (let school_name = strip (replace_newlines (str_of w school_cell));
          state_ut = strip (replace_newlines (str_of w state_cell))
      in case is_already_processed (processed_data s) school_name state_ut of
           Raised e \<Rightarrow> (Raised e, s)
         | Returned True \<Rightarrow> (Returned (), emit (Print (Already_processed index school_name)) s)
         | Returned False \<Rightarrow>
     (let s1 = emit (Print (Processing index school_name state_ut)) s;
          record = blank_record row_data
      in case search_school_websites w school_name state_ut 5 s1 of
           ([], s2) \<Rightarrow> (Returned (), save_to_json w (append_record record s2))
         | (site # sites, s2) \<Rightarrow>
     (let record1 = AList.update ''Website'' (Text site) record
      in case scrape_all v w state_ut (site # sites) (empty_info, s2) of
           (Raised e, s3) \<Rightarrow> (Raised e, s3)
         | (Returned merged_info, s3) \<Rightarrow>
     (let record2 = update_info merged_info record1;
          s4 = emit (Print (Final_merged school_name
                 (Email merged_info \<noteq> []) (Tel merged_info \<noteq> [])
                 (District merged_info \<noteq> []) (Address merged_info \<noteq> []))) s3
      in (Returned (), emit (Sleep 1) (save_to_json w (append_record record2 s4)))))))))"

text \<open>
  The loop over \<open>df.iterrows()\<close>, whose index is the position of the row: \<open>continue\<close> below
  \<open>start_index\<close>, \<open>break\<close> on \<open>KeyboardInterrupt\<close>, \<open>continue\<close> on any other exception.
\<close>

fun run_loop ::
  "variant \<Rightarrow> world \<Rightarrow> nat \<Rightarrow> nat \<Rightarrow> (nat \<times> cell dict) list \<Rightarrow> scraper \<Rightarrow> scraper" where
  "run_loop v w total_rows start_index [] s = s"
| "run_loop v w total_rows start_index ((index, row) # rest) s =
     (if index < start_index then run_loop v w total_rows start_index rest s
      else case process_school v w row index total_rows s of
             (Returned u, s1) \<Rightarrow> run_loop v w total_rows start_index rest s1
           | (Raised e, s1) \<Rightarrow>
               if e = KeyboardInterrupt then emit (Print Interrupted) s1
               else run_loop v w total_rows start_index rest
                      (emit (Print (Error_processing_row index)) s1))"

definition run :: "variant \<Rightarrow> world \<Rightarrow> cell dict list \<Rightarrow> scraper \<Rightarrow> scraper" where
  "run v w df s =
     (let s1 = emit (Print (Loaded_records (length df))) (emit (Print Loading_excel) s);
          start_index = length (processed_data s1);
          s2 = (if start_index > 0
                then emit (Print (Resuming (start_index + 1) (length df))) s1 else s1);
          s3 = run_loop v w (length df) start_index (zip [0 ..< length df] df) s2;
          s4 = save_to_excel w s3
      in emit (Print (Process_completed (length (processed_data s4)))) s4)"

section \<open>The specification's words\<close>

text \<open>The link of a search result: \<open>item.get("link", "")\<close>.\<close>

definition link_of :: "string dict \<Rightarrow> string" where
  "link_of item = dict_get item ''link'' []"

text \<open>
  A link qualifies when no denylisted domain occurs in it and it starts with an http(s)
  scheme.
\<close>

definition qualifying_link :: "string \<Rightarrow> bool" where
  "qualifying_link link =
     ((\<forall>bad \<in> set blacklist. \<not> contains link bad)
      \<and> (startswith link ''http://'' \<or> startswith link ''https://''))"

section \<open>Example worlds\<close>

text \<open>
  A world without network: every request fails, no text holds a phone number. Its files
  can be written.
\<close>

definition offline :: world where
  "offline =
     \<lparr>search_api = (\<lambda>t q. Search_transport_error),
      http_get = (\<lambda>t u. Transport_error),
      urljoin = (\<lambda>base href. Some (base @ href)),
      phone_match = (\<lambda>fragment. None),
      py_str = (\<lambda>n. ''nan''),
      writable = (\<lambda>t. True),
      json_ok = (\<lambda>n. True),
      excel_ok = (\<lambda>n. True)\<rparr>"

text \<open>
  A search service whose first answer has no link and whose later answers have one.
\<close>

definition flaky :: world where
  "flaky =
     offline\<lparr>search_api :=
       (\<lambda>t q. if t = 0 then Body (Some [[(''title'', ''Schools of Pune'')]])
              else Body (Some [[(''link'', ''http://school.example'')]]))\<rparr>"

text \<open>
  A search service that answers every query with a denylisted link followed by six valid
  ones.
\<close>

definition seven_results :: "string dict list" where
  "seven_results =
     [[(''link'', ''https://www.indiastudychannel.com/schools/1'')],
      [(''link'', ''https://a.example'')], [(''link'', ''http://b.example'')],
      [(''link'', ''https://c.example'')], [(''link'', ''https://d.example'')],
      [(''link'', ''http://e.example'')], [(''link'', ''https://f.example'')]]"

definition listing :: world where
  "listing = offline\<lparr>search_api := (\<lambda>t q. Body (Some seven_results))\<rparr>"

text \<open>
  Two sites with the same main page, but that the first has an anchor \<open>//[about\<close> before
  the anchor \<open>/contact\<close>. The contact pages give an e-mail address. \<open>urljoin\<close> raises
  \<open>ValueError\<close> on a reference that opens a bracket in the host part, as
  \<open>urllib.parse.urljoin\<close> does (\<open>Invalid IPv6 URL\<close>).
\<close>

definition campus :: world where
  "campus =
     offline\<lparr>http_get :=
       (\<lambda>t u.
          if u = ''http://a.example''
          then Html \<lparr>loc_icon = Some ''12 School Road, Pune'',
                     page_text = ''Welcome to our school'',
                     hrefs = [''//[about'', ''/contact'']\<rparr>
          else if u = ''http://b.example''
          then Html \<lparr>loc_icon = Some ''12 School Road, Pune'',
                     page_text = ''Welcome to our school'',
                     hrefs = [''/contact'']\<rparr>
          else if u = ''http://a.example/contact'' \<or> u = ''http://b.example/contact''
          then Html \<lparr>loc_icon = None, page_text = ''Write to office@school.example'',
                     hrefs = []\<rparr>
          else Status_error),
       urljoin := (\<lambda>base href. if startswith href ''//['' then None else Some (base @ href))\<rparr>"

section \<open>The checkpoint's keys\<close>




section \<open>Reading the trace\<close>

text \<open>How often a query was sent, and how often the program slept \<open>n\<close> units.\<close>

definition requests_of :: "string \<Rightarrow> scraper \<Rightarrow> nat" where
  "requests_of q s = length (filter (\<lambda>e. e = Search_request q) (trace s))"

definition sleeps_of :: "nat \<Rightarrow> scraper \<Rightarrow> nat" where
  "sleeps_of n s = length (filter (\<lambda>e. e = Sleep n) (trace s))"

text \<open>
  The row a log line is about, for the three lines that the row loop and \<open>process_school\<close>
  print once for a row they handle.
\<close>

fun row_index :: "event \<Rightarrow> nat option" where
  "row_index (Print (Processing i school_name state_ut)) = Some i"
| "row_index (Print (Already_processed i school_name)) = Some i"
| "row_index (Print (Error_processing_row i)) = Some i"
| "row_index e = None"

text \<open>The rows handled, in order.\<close>

definition rows_handled :: "scraper \<Rightarrow> nat list" where
  "rows_handled s = List.map_filter row_index (trace s)"

text \<open>
  \<open>s'\<close> comes from \<open>s\<close> by events that are about no row, with the records and the output
  files as they were.
\<close>

definition extends :: "scraper \<Rightarrow> scraper \<Rightarrow> bool" where
  "extends s s' =
     (processed_data s' = processed_data s \<and> json_file s' = json_file s
      \<and> excel_file s' = excel_file s
      \<and> (\<exists>evs. trace s' = trace s @ evs \<and> list_all (\<lambda>e. row_index e = None) evs))"

text \<open>The exceptions the page scraper's steps raise.\<close>

definition catchable :: "exn \<Rightarrow> bool" where
  "catchable e = (e = ConnectionError \<or> e = HTTPError \<or> e = ParserError \<or> e = ValueError)"

text \<open>
  A site with a structured address and no address line in its text; its contact page
  answers with an error status.
\<close>

definition brochure :: world where
  "brochure =
     offline\<lparr>http_get :=
       (\<lambda>t u. if u = ''http://school.example''
              then Html \<lparr>loc_icon = Some ''12 School Road, Pune'',
                         page_text = ''Welcome to our school'',
                         hrefs = [''/contact'']\<rparr>
              else Status_error)\<rparr>"

text \<open>
  The records \<open>process_school\<close> appends for a row: the row with the five fields blank, or
  with a site and merged fields written into it.
\<close>

definition appended :: "cell dict \<Rightarrow> cell dict \<Rightarrow> bool" where
  "appended row_data record =
     (record = blank_record row_data
      \<or> (\<exists>site merged_info.
            record = update_info merged_info
                       (AList.update ''Website'' (Text site) (blank_record row_data))))"

text \<open>The five fields the orchestrator writes.\<close>

definition enrichment_fields :: "string list" where
  "enrichment_fields = [''Website'', ''District'', ''Address'', ''Tel'', ''Email'']"

text \<open>A roster row with a column of its own, and a roster that holds it twice.\<close>

definition hill_row :: "cell dict" where
  "hill_row = [(''School'', Text ''Hill School''), (''State/UT'', Text ''Goa''),
               (''Rank'', Opaque 7)]"


text \<open>A row processed in an earlier run.\<close>

definition old_row :: "cell dict" where
  "old_row = [(''School'', Text ''Old School''), (''State/UT'', Text ''Goa'')]"

section \<open>Website search: the links kept\<close>

lemma startswith_nonempty: "startswith link (p # ps) \<Longrightarrow> link \<noteq> []"
  by (cases link) auto

lemma collect_links_acc:
  "length acc < 5 \<Longrightarrow>
   collect_links items acc = take 5 (acc @ filter qualifying_link (map link_of items))"
proof (induction items arbitrary: acc)
  case Nil
  then show ?case by simp
next
  case (Cons item rest)
  show ?case
  proof (cases "qualifying_link (link_of item)")
    case True
    then have ne: "link_of item \<noteq> []"
      using startswith_nonempty by (auto simp: qualifying_link_def)
    show ?thesis
    proof (cases "length (acc @ [link_of item]) = 5")
      case full: True
      with True ne show ?thesis
        by (simp add: qualifying_link_def link_of_def list_ex_iff Let_def)
    next
      case False
      with Cons.prems have "length (acc @ [link_of item]) < 5" by simp
      from Cons.IH[OF this] True ne False Cons.prems show ?thesis
        by (simp add: qualifying_link_def link_of_def list_ex_iff Let_def)
    qed
  next
    case False
    with Cons.IH[OF Cons.prems] Cons.prems show ?thesis
      by (auto simp: qualifying_link_def link_of_def list_ex_iff Let_def)
  qed
qed

lemma now_emit [simp]: "now (emit e s) = Suc (now s)"
  by (simp add: now_def emit_def)

lemma trace_emit_nth [simp]: "trace (emit e s) ! now s = e"
  by (simp add: now_def emit_def)

lemma trace_emit_before [simp]: "t < now s \<Longrightarrow> trace (emit e s) ! t = trace s ! t"
  by (simp add: now_def emit_def nth_append)

text \<open>
  A search that returns links made a request whose answer gave them, at a time after its
  start.
\<close>

lemma search_attempts_result:
  "search_attempts w name q retries as s = (ws, s') \<Longrightarrow> ws \<noteq> [] \<Longrightarrow>
   \<exists>t. now s \<le> t \<and> t < now s' \<and> trace s' ! t = Search_request q
      \<and> search_request w q t = Returned ws"
proof (induction as arbitrary: s)
  case Nil
  then show ?case by simp
next
  case (Cons a as)
  let ?s1 = "emit (Search_request q) s"
  show ?case
  proof (cases "search_request w q (now s)")
    case (Raised e)
    from Cons.prems Raised obtain s3 where
      s3: "search_attempts w name q retries as s3 = (ws, s')" "now s \<le> now s3"
      by (cases "a < retries - 1") (auto simp: Let_def)
    from Cons.IH[OF s3(1) Cons.prems(2)] obtain t where
      "now s3 \<le> t" "t < now s'" "trace s' ! t = Search_request q"
      "search_request w q t = Returned ws" by blast
    with s3(2) show ?thesis by (meson order_trans)
  next
    case (Returned found)
    show ?thesis
    proof (cases found)
      case Nil
      from Cons.prems Returned Nil obtain s3 where
        s3: "search_attempts w name q retries as s3 = (ws, s')" "now s \<le> now s3"
        by (cases "a < retries - 1") (auto simp: Let_def)
      from Cons.IH[OF s3(1) Cons.prems(2)] obtain t where
        "now s3 \<le> t" "t < now s'" "trace s' ! t = Search_request q"
        "search_request w q t = Returned ws" by blast
      with s3(2) show ?thesis by (meson order_trans)
    next
      case (Cons u us)
      with Cons.prems Returned have
        "ws = found" "s' = emit (Print (Top_sites name (u # us))) ?s1"
        by (auto simp: Let_def)
      with Returned have "now s \<le> now s \<and> now s < now s'
          \<and> trace s' ! now s = Search_request q \<and> search_request w q (now s) = Returned ws"
        by simp
      then show ?thesis by blast
    qed
  qed
qed

lemma search_request_links:
  "search_request w q t = Returned ws \<Longrightarrow> ws \<noteq> [] \<Longrightarrow>
   \<exists>items. search_api w t q = Body (Some items) \<and> ws = collect_links items []"
  by (auto simp: search_request_def split: search_reply.splits option.splits if_splits)

lemma collect_links_filter:
  "collect_links items [] = take 5 (filter qualifying_link (map link_of items))"
  using collect_links_acc[of "[]"] by simp

text \<open>
  C5. The loop over a search response returns the first five qualifying links of the
  response, in the response's order: a link is kept only if no denylisted domain occurs in
  it and it starts with \<open>http://\<close> or \<open>https://\<close>. When the answer to the first request of
  a search has a qualifying link, the search returns that list. Whenever a search returns
  links, they are that list for the answer to a request the search made with its query.
\<close>

theorem search_result_first_five_qualifying:
  "collect_links items [] = take 5 (filter qualifying_link (map link_of items))
   \<and> (0 < retries
        \<and> search_api w (now s) (query_text school_name state_ut) = Body (Some items)
        \<and> filter qualifying_link (map link_of items) \<noteq> []
        \<longrightarrow> fst (search_school_websites w school_name state_ut retries s)
              = take 5 (filter qualifying_link (map link_of items)))
   \<and> (fst (search_school_websites w school_name state_ut retries s) \<noteq> []
        \<longrightarrow> (\<exists>t answer.
               now s \<le> t
             \<and> t < now (snd (search_school_websites w school_name state_ut retries s))
             \<and> trace (snd (search_school_websites w school_name state_ut retries s)) ! t
                 = Search_request (query_text school_name state_ut)
             \<and> search_api w t (query_text school_name state_ut) = Body (Some answer)
             \<and> fst (search_school_websites w school_name state_ut retries s)
                 = take 5 (filter qualifying_link (map link_of answer))))"
proof (intro conjI impI)
  show "collect_links items [] = take 5 (filter qualifying_link (map link_of items))"
    by (rule collect_links_filter)
next
  let ?q = "query_text school_name state_ut"
  assume a: "0 < retries \<and> search_api w (now s) ?q = Body (Some items)
        \<and> filter qualifying_link (map link_of items) \<noteq> []"
  then have ne: "items \<noteq> []" by auto
  from a have "take 5 (filter qualifying_link (map link_of items)) \<noteq> []" by simp
  then obtain u us where
    us: "take 5 (filter qualifying_link (map link_of items)) = u # us"
    by (cases "take 5 (filter qualifying_link (map link_of items))") auto
  with a ne have r: "search_request w ?q (now s) = Returned (u # us)"
    by (simp add: search_request_def collect_links_filter)
  from a have "[0 ..< retries] = 0 # [1 ..< retries]" by (simp add: upt_conv_Cons)
  with r us show "fst (search_school_websites w school_name state_ut retries s)
              = take 5 (filter qualifying_link (map link_of items))"
    by (simp add: search_school_websites_def Let_def)
next
  let ?q = "query_text school_name state_ut"
  let ?r = "search_school_websites w school_name state_ut retries s"
  assume ne: "fst ?r \<noteq> []"
  have "search_attempts w (collapse school_name) ?q retries [0 ..< retries] s
          = (fst ?r, snd ?r)"
    by (simp add: search_school_websites_def)
  from search_attempts_result[OF this ne] obtain t where
    t: "now s \<le> t" "t < now (snd ?r)" "trace (snd ?r) ! t = Search_request ?q"
       "search_request w ?q t = Returned (fst ?r)" by blast
  from search_request_links[OF t(4) ne] obtain answer where
    "search_api w t ?q = Body (Some answer)" "fst ?r = collect_links answer []" by blast
  with t show "\<exists>t answer.
               now s \<le> t \<and> t < now (snd ?r)
             \<and> trace (snd ?r) ! t = Search_request ?q
             \<and> search_api w t ?q = Body (Some answer)
             \<and> fst ?r = take 5 (filter qualifying_link (map link_of answer))"
    by (auto simp: collect_links_filter)
qed

text \<open>
  The service that answers with a denylisted link followed by six valid ones: the search
  returns the first five valid ones, in the order of the answer.
\<close>

theorem search_result_first_five_qualifying_witness:
  "fst (search_school_websites listing ''Hill School'' ''Goa'' 5 (init_scraper []))
   = [''https://a.example'', ''http://b.example'', ''https://c.example'',
      ''https://d.example'', ''http://e.example'']"
proof -
  have h: "0 < (5::nat)
      \<and> search_api listing (now (init_scraper [])) (query_text ''Hill School'' ''Goa'')
          = Body (Some seven_results)
      \<and> filter qualifying_link (map link_of seven_results) \<noteq> []"
    by code_simp
  have e: "take 5 (filter qualifying_link (map link_of seven_results))
      = [''https://a.example'', ''http://b.example'', ''https://c.example'',
         ''https://d.example'', ''http://e.example'']"
    by code_simp
  from search_result_first_five_qualifying[THEN conjunct2, THEN conjunct1, THEN mp, OF h] e
  show ?thesis by simp
qed

section \<open>Field extraction\<close>

lemma address_scan_no_state: "address_scan [] lines acc = acc"
  by (induction lines arbitrary: acc) (auto simp: is_address_line_def)

lemma line_scan_no_state: "fst (line_scan [] lines (address, district)) = address"
  by (induction lines arbitrary: address district) (auto simp: is_address_line_def Let_def)

lemma find_Some_member: "find P xs = Some x \<Longrightarrow> x \<in> set xs \<and> P x"
  by (induction xs) (auto split: if_splits)

text \<open>
  C10. With an empty region hint no line is an address candidate, so both extractors return
  an empty Address; in \<open>data_augmentation.py\<close> the list of address candidates is empty, the
  district fallback has nothing to work on, and a non-empty District comes from a line that
  matches the district keyword pattern.
\<close>

theorem no_region_no_address:
  "\<not> is_address_line [] line
   \<and> Address (extract_info w text []) = []
   \<and> Address (extract_info_ds w text []) = []
   \<and> address_candidates text [] = []
   \<and> (District (extract_info w text []) \<noteq> []
        \<longrightarrow> (\<exists>line \<in> set (text_lines text). is_district_line line))"
proof -
  have a: "address_candidates text [] = []"
    by (simp add: address_candidates_def address_scan_no_state)
  have d: "\<exists>line \<in> set (text_lines text). is_district_line line"
    if "District (extract_info w text []) \<noteq> []"
  proof (cases "find is_district_line (text_lines text)")
    case None
    with that a show ?thesis by (simp add: extract_info_def extract_district_def)
  next
    case (Some l)
    then show ?thesis using find_Some_member by fastforce
  qed
  have e: "Address (extract_info_ds w text []) = []"
    using line_scan_no_state[of "text_lines text" "[]" "[]"]
    by (auto simp: extract_info_ds_def split: prod.splits)
  show ?thesis
    using a d e by (simp add: is_address_line_def extract_info_def address_scan_no_state)
qed

text \<open>A text with a district line, extracted with an empty region hint.\<close>

theorem no_region_no_address_witness:
  "District (extract_info offline ''Pune District\<newline>12 Main Road, Pune'' []) = ''Pune''
   \<and> (\<exists>line \<in> set (text_lines ''Pune District\<newline>12 Main Road, Pune''). is_district_line line)
   \<and> Address (extract_info offline ''Pune District\<newline>12 Main Road, Pune'' []) = []"
proof -
  have h: "District (extract_info offline ''Pune District\<newline>12 Main Road, Pune'' []) = ''Pune''"
    by code_simp
  with no_region_no_address[of "''12 Main Road, Pune''" offline "''Pune District\<newline>12 Main Road, Pune''"]
  show ?thesis by simp
qed

lemma north_delhi_parts:
  "district_parts ''North Delhi District, Government of India'' = [''North Delhi'']"
  by code_simp

lemma north_delhi_is_district_line:
  "is_district_line ''North Delhi District, Government of India''"
  by code_simp

lemma north_delhi_sub:
  "re_sub boilerplate_rx [] ''North Delhi District, Government of India''
     = ''North Delhi ,  ''"
  by code_simp

lemma north_delhi_title: "title ''North Delhi'' = ''North Delhi''"
  by code_simp

text \<open>
  C8. In \<open>data_augmentation.py\<close>, when the first line of the text that matches
  \<open>\b(district|dist|dt\.?)\b\<close> is \<open>North Delhi District, Government of India\<close>, the District
  is \<open>North Delhi\<close>: the keyword matches at the word \<open>District\<close>, removing the boilerplate
  leaves \<open>North Delhi ,\<close> and blanks, the only non-empty piece between commas is
  \<open>North Delhi\<close>, and it is title-cased.
\<close>

theorem richer_district_north_delhi:
  assumes "find is_district_line (text_lines text)
             = Some ''North Delhi District, Government of India''"
  shows "District (extract_info w text state_ut) = ''North Delhi''
         \<and> re_search district_line_rx ''North Delhi District, Government of India'' = Some (12, 20)
         \<and> re_sub boilerplate_rx [] ''North Delhi District, Government of India''
             = ''North Delhi ,  ''
         \<and> district_parts ''North Delhi District, Government of India'' = [''North Delhi'']"
proof -
  have "re_search district_line_rx ''North Delhi District, Government of India'' = Some (12, 20)"
    by code_simp
  then show ?thesis
  using assms north_delhi_title north_delhi_sub
  by (simp add: extract_info_def extract_district_def north_delhi_parts)
qed

text \<open>The line as the second of three, indented, with a later keyword line.\<close>

theorem richer_district_north_delhi_witness:
  "find is_district_line
     (text_lines ''Welcome to our school\<newline>  North Delhi District, Government of India\<newline>Dist. office'')
     = Some ''North Delhi District, Government of India''
   \<and> District (extract_info offline
        ''Welcome to our school\<newline>  North Delhi District, Government of India\<newline>Dist. office''
        ''Delhi'') = ''North Delhi''"
proof -
  have h: "find is_district_line
     (text_lines ''Welcome to our school\<newline>  North Delhi District, Government of India\<newline>Dist. office'')
     = Some ''North Delhi District, Government of India''"
    by code_simp
  from richer_district_north_delhi[OF h, of offline "''Delhi''"] h show ?thesis by simp
qed

section \<open>Duplicate check\<close>

lemma is_already_processed_texts:
  assumes "\<forall>r \<in> set data. \<exists>a b. dict_get r ''School'' (Text []) = Text a
                               \<and> dict_get r ''State/UT'' (Text []) = Text b"
  shows "is_already_processed data school_name state_ut =
         Returned (\<exists>r \<in> set data.
            strip_lower (dict_get r ''School'' (Text [])) = Returned (lower (strip school_name))
          \<and> strip_lower (dict_get r ''State/UT'' (Text [])) = Returned (lower (strip state_ut)))"
  using assms
proof (induction data)
  case Nil
  then show ?case by simp
next
  case (Cons r data)
  then obtain a b where "dict_get r ''School'' (Text []) = Text a"
     "dict_get r ''State/UT'' (Text []) = Text b" by auto
  with Cons show ?case by (auto simp: strip_lower_def)
qed

text \<open>
  C3, amended. The duplicate check takes two (school name, state) pairs for the same
  exactly when they are equal after \<open>strip\<close> and \<open>lower\<close>: for a checkpoint of one record, and
  for any checkpoint whose School and State/UT cells are texts, where the answer is whether
  some record agrees in both. Whitespace inside a name is compared as it is.
\<close>

theorem duplicate_check_strip_lower:
  "is_already_processed [[(''School'', Text n1), (''State/UT'', Text s1)]] n2 s2
     = Returned (lower (strip n1) = lower (strip n2) \<and> lower (strip s1) = lower (strip s2))
   \<and> ((\<forall>r \<in> set data. \<exists>a b. dict_get r ''School'' (Text []) = Text a
                               \<and> dict_get r ''State/UT'' (Text []) = Text b)
       \<longrightarrow> is_already_processed data school_name state_ut =
           Returned (\<exists>r \<in> set data.
              strip_lower (dict_get r ''School'' (Text [])) = Returned (lower (strip school_name))
            \<and> strip_lower (dict_get r ''State/UT'' (Text [])) = Returned (lower (strip state_ut))))"
proof
  show "is_already_processed [[(''School'', Text n1), (''State/UT'', Text s1)]] n2 s2
     = Returned (lower (strip n1) = lower (strip n2) \<and> lower (strip s1) = lower (strip s2))"
    by (simp add: dict_get_def strip_lower_def)
next
  show "(\<forall>r \<in> set data. \<exists>a b. dict_get r ''School'' (Text []) = Text a
                               \<and> dict_get r ''State/UT'' (Text []) = Text b)
       \<longrightarrow> is_already_processed data school_name state_ut =
           Returned (\<exists>r \<in> set data.
              strip_lower (dict_get r ''School'' (Text [])) = Returned (lower (strip school_name))
            \<and> strip_lower (dict_get r ''State/UT'' (Text [])) = Returned (lower (strip state_ut)))"
    using is_already_processed_texts by blast
qed

text \<open>A checkpoint of two records, asked for the second one in another case and padding.\<close>

theorem duplicate_check_strip_lower_witness:
  "is_already_processed
     [[(''School'', Text ''Hill School''), (''State/UT'', Text ''Goa'')],
      [(''School'', Text ''Delhi Public School''), (''State/UT'', Text ''Delhi'')]]
     ''  DELHI PUBLIC SCHOOL '' ''delhi'' = Returned True"
proof -
  have n: "lower (strip ''Delhi Public School'') = lower (strip ''  DELHI PUBLIC SCHOOL '')"
    by code_simp
  have s: "lower (strip ''Delhi'') = lower (strip ''delhi'')"
    by code_simp
  have h: "\<forall>r \<in> set [[(''School'', Text ''Hill School''), (''State/UT'', Text ''Goa'')],
      [(''School'', Text ''Delhi Public School''), (''State/UT'', Text ''Delhi'')]].
      \<exists>a b. dict_get r ''School'' (Text []) = Text a \<and> dict_get r ''State/UT'' (Text []) = Text b"
    by (simp add: dict_get_def)
  from duplicate_check_strip_lower[THEN conjunct2, THEN mp, OF h,
      of "''  DELHI PUBLIC SCHOOL ''" "''delhi''"] n s
  show ?thesis by (simp add: dict_get_def strip_lower_def)
qed

text \<open>
  C3 as stated fails: two names that agree after collapsing whitespace and folding case,
  one with two blanks inside and one with a single blank, are different for the duplicate
  check.
\<close>

theorem duplicate_check_keeps_inner_whitespace:
  "lower (collapse ''Delhi  Public School'') = lower (collapse ''Delhi Public School'')
   \<and> is_already_processed
       [[(''School'', Text ''Delhi  Public School''), (''State/UT'', Text ''Delhi'')]]
       ''Delhi Public School'' ''Delhi'' = Returned False"
  by code_simp

section \<open>Website search: retries\<close>

lemma requests_of_emit [simp]:
  "requests_of q (emit e s) = requests_of q s + (if e = Search_request q then 1 else 0)"
  by (simp add: requests_of_def emit_def)

lemma sleeps_of_emit [simp]:
  "sleeps_of n (emit e s) = sleeps_of n s + (if e = Sleep n then 1 else 0)"
  by (simp add: sleeps_of_def emit_def)

lemma search_attempts_no_links:
  assumes "\<forall>t u us. search_request w q t \<noteq> Returned (u # us)"
  shows "fst (search_attempts w name q retries as s) = []
       \<and> requests_of q (snd (search_attempts w name q retries as s)) = requests_of q s + length as
       \<and> sleeps_of 2 (snd (search_attempts w name q retries as s))
           = sleeps_of 2 s + length (filter (\<lambda>a. a < retries - 1) as)"
proof (induction as arbitrary: s)
  case Nil
  show ?case by simp
next
  case (Cons a as)
  show ?case
  proof (cases "search_request w q (now s)")
    case (Returned ws)
    with assms have "ws = []" by (cases ws) auto
    with Returned Cons.IH show ?thesis by (simp add: Let_def)
  next
    case (Raised e)
    with Cons.IH show ?thesis by (simp add: Let_def)
  qed
qed

lemma filter_below_upt: "length (filter (\<lambda>a. a < k) [0 ..< n]) = min k n"
  by (induction n) auto

text \<open>
  C2, amended. The search goes on to the next attempt whenever an attempt gives no
  qualifying link, whether the request failed or succeeded: if no answer to the query ever
  has one, it sends the query \<open>retries\<close> times, sleeps 2 units between two attempts
  (\<open>retries - 1\<close> times) and returns the empty list. An attempt whose answer has links
  returns them at once, without a sleep.
\<close>

theorem search_retries_without_links:
  "((\<forall>t u us. search_request w (query_text school_name state_ut) t \<noteq> Returned (u # us))
     \<longrightarrow> fst (search_school_websites w school_name state_ut retries s) = []
         \<and> requests_of (query_text school_name state_ut)
              (snd (search_school_websites w school_name state_ut retries s))
             = requests_of (query_text school_name state_ut) s + retries
         \<and> sleeps_of 2 (snd (search_school_websites w school_name state_ut retries s))
             = sleeps_of 2 s + (retries - 1))
   \<and> (search_request w q (now s) = Returned (u # us)
     \<longrightarrow> search_attempts w name q retries (attempt # rest) s
           = (u # us, emit (Print (Top_sites name (u # us))) (emit (Search_request q) s)))"
proof (intro conjI impI)
  assume h: "\<forall>t u us. search_request w (query_text school_name state_ut) t \<noteq> Returned (u # us)"
  note r = search_attempts_no_links[OF h, of "collapse school_name" retries "[0 ..< retries]" s]
  show "fst (search_school_websites w school_name state_ut retries s) = []"
    using r by (simp add: search_school_websites_def)
  show "requests_of (query_text school_name state_ut)
              (snd (search_school_websites w school_name state_ut retries s))
             = requests_of (query_text school_name state_ut) s + retries"
    using r by (simp add: search_school_websites_def)
  show "sleeps_of 2 (snd (search_school_websites w school_name state_ut retries s))
             = sleeps_of 2 s + (retries - 1)"
    using r by (simp add: search_school_websites_def filter_below_upt)
next
  assume "search_request w q (now s) = Returned (u # us)"
  then show "search_attempts w name q retries (attempt # rest) s
           = (u # us, emit (Print (Top_sites name (u # us))) (emit (Search_request q) s))"
    by (simp add: Let_def)
qed

lemma offline_search_request: "search_request offline q t = Raised ConnectionError"
  by (simp add: search_request_def offline_def)

text \<open>
  Without network the five attempts all fail; with the service that has a link from time 1
  on, an attempt made at time 1 returns it.
\<close>

theorem search_retries_without_links_witness:
  "fst (search_school_websites offline ''Hill School'' ''Goa'' 5 (init_scraper [])) = []
   \<and> requests_of (query_text ''Hill School'' ''Goa'')
        (snd (search_school_websites offline ''Hill School'' ''Goa'' 5 (init_scraper []))) = 5
   \<and> sleeps_of 2
        (snd (search_school_websites offline ''Hill School'' ''Goa'' 5 (init_scraper []))) = 4
   \<and> search_attempts flaky ''Hill School'' ''q'' 5 [0, 1, 2, 3, 4]
        (emit (Print Loading_excel) (init_scraper []))
       = ([''http://school.example''],
          emit (Print (Top_sites ''Hill School'' [''http://school.example'']))
            (emit (Search_request ''q'') (emit (Print Loading_excel) (init_scraper []))))"
proof -
  have h: "\<forall>t u us. search_request offline (query_text ''Hill School'' ''Goa'') t
                     \<noteq> Returned (u # us)"
    by (simp add: offline_search_request)
  have g: "search_request flaky ''q'' (now (emit (Print Loading_excel) (init_scraper [])))
             = Returned [''http://school.example'']"
    by code_simp
  from search_retries_without_links[THEN conjunct1, THEN mp, OF h, of 5 "init_scraper []"]
       search_retries_without_links[THEN conjunct2, THEN mp, OF g, of "''Hill School''" 5 0
         "[1, 2, 3, 4]"]
  show ?thesis by (simp add: requests_of_def sleeps_of_def init_scraper_def)
qed

text \<open>
  C2 as stated fails: the first request succeeds and its answer has no link, and the
  search sleeps 2 units, sends the query again and returns the link of the second answer
  instead of the empty list.
\<close>

theorem search_retries_after_empty_response:
  "search_api flaky 0 (query_text ''Hill School'' ''Goa'')
     = Body (Some [[(''title'', ''Schools of Pune'')]])
   \<and> search_request flaky (query_text ''Hill School'' ''Goa'') 0 = Returned []
   \<and> fst (search_school_websites flaky ''Hill School'' ''Goa'' 5 (init_scraper []))
       = [''http://school.example'']
   \<and> trace (snd (search_school_websites flaky ''Hill School'' ''Goa'' 5 (init_scraper [])))
       = [Search_request ''Hill School Goa official website'', Sleep 2,
          Search_request ''Hill School Goa official website'',
          Print (Top_sites ''Hill School'' [''http://school.example''])]"
  by code_simp

section \<open>Page scraper\<close>

lemma fetch_state: "snd (fetch w url s) = emit (Page_request url) s"
  by (simp add: fetch_def)

lemma fetch_Raised:
  "fetch w url s = (Raised e, s1) \<Longrightarrow> e = ConnectionError \<or> e = HTTPError \<or> e = ParserError"
  by (auto simp: fetch_def split: http_reply.splits)

lemma fetch_failed:
  "\<forall>pg. http_get w (now s) url \<noteq> Html pg \<Longrightarrow>
   \<exists>e. fetch w url s = (Raised e, emit (Page_request url) s)"
  by (auto simp: fetch_def split: http_reply.splits)

lemma resolve_Raised: "resolve w url href = Raised e \<Longrightarrow> e = ValueError"
  by (auto simp: resolve_def split: if_splits option.splits)

lemma follow_links_exn:
  "follow_links w url state_ut links (info, s) = (Some e, info', s') \<Longrightarrow> e = ValueError"
proof (induction links arbitrary: info s)
  case Nil
  then show ?case by simp
next
  case (Cons href rest)
  show ?case
  proof (cases "is_subpage_link href")
    case False
    with Cons show ?thesis by simp
  next
    case True
    show ?thesis
    proof (cases "resolve w url href")
      case (Raised x)
      with True Cons.prems resolve_Raised show ?thesis by auto
    next
      case (Returned target)
      obtain r s1 where f: "fetch w target s = (r, s1)" by (cases "fetch w target s")
      with True Returned Cons show ?thesis by (cases r) auto
    qed
  qed
qed

lemma follow_links_ds_exn:
  "follow_links_ds w url state_ut links (info, addresses, s) = (Some e, info', addresses', s')
   \<Longrightarrow> e = ValueError"
proof (induction links arbitrary: info addresses s)
  case Nil
  then show ?case by simp
next
  case (Cons href rest)
  show ?case
  proof (cases "is_subpage_link href")
    case False
    with Cons show ?thesis by simp
  next
    case True
    show ?thesis
    proof (cases "resolve w url href")
      case (Raised x)
      with True Cons.prems resolve_Raised show ?thesis by auto
    next
      case (Returned target)
      obtain r s1 where f: "fetch w target s = (r, s1)" by (cases "fetch w target s")
      with True Returned Cons show ?thesis by (cases r) (auto simp: Let_def)
    qed
  qed
qed

lemma scrape_try_exn:
  "scrape_try w url state_ut s = (Some e, info, s') \<Longrightarrow> catchable e"
proof -
  assume a: "scrape_try w url state_ut s = (Some e, info, s')"
  obtain r s1 where f: "fetch w url s = (r, s1)" by (cases "fetch w url s")
  show ?thesis
  proof (cases r)
    case (Raised x)
    with a f fetch_Raised[of w url s x s1] show ?thesis
      by (auto simp: scrape_try_def catchable_def)
  next
    case (Returned soup)
    with a f follow_links_exn show ?thesis
      by (auto simp: scrape_try_def catchable_def Let_def)
  qed
qed

lemma scrape_try_ds_exn:
  "scrape_try_ds w url state_ut s = (Some e, info, s') \<Longrightarrow> catchable e"
proof -
  assume a: "scrape_try_ds w url state_ut s = (Some e, info, s')"
  obtain r s1 where f: "fetch w url s = (r, s1)" by (cases "fetch w url s")
  show ?thesis
  proof (cases r)
    case (Raised x)
    with a f fetch_Raised[of w url s x s1] show ?thesis
      by (auto simp: scrape_try_ds_def catchable_def)
  next
    case (Returned soup)
    with a f follow_links_ds_exn show ?thesis
      by (auto simp: scrape_try_ds_def catchable_def Let_def split: prod.splits option.splits)
  qed
qed

lemma scrape_handlers_catch:
  assumes "\<And>e info s'. r = (Some e, info, s') \<Longrightarrow> catchable e"
  shows "\<exists>info s'. scrape_handlers url r = (Returned info, s')"
proof (cases r)
  case (fields x info s')
  show ?thesis
  proof (cases x)
    case None
    with fields show ?thesis by (simp add: scrape_handlers_def)
  next
    case (Some e)
    with fields assms have "catchable e" by simp
    with fields Some show ?thesis
      by (auto simp: scrape_handlers_def catchable_def is_RequestException_def is_Exception_def)
  qed
qed

lemma scrape_returns: "\<exists>info s'. scrape v w url state_ut s = (Returned info, s')"
proof (cases v)
  case Data_augmentation
  then show ?thesis
    using scrape_handlers_catch[of "scrape_try w url state_ut s" url] scrape_try_exn
    by (simp add: scrape_def scrape_school_info_def)
next
  case Data_scrap
  then show ?thesis
    using scrape_handlers_catch[of "scrape_try_ds w url state_ut s" url] scrape_try_ds_exn
    by (simp add: scrape_def scrape_school_info_ds_def)
qed

lemma scrape_main_failure:
  assumes "\<forall>pg. http_get w (now s) url \<noteq> Html pg"
  shows "fst (scrape v w url state_ut s) = Returned empty_info"
proof -
  from fetch_failed[OF assms] obtain e where
    f: "fetch w url s = (Raised e, emit (Page_request url) s)" by blast
  with fetch_Raised have c: "e = ConnectionError \<or> e = HTTPError \<or> e = ParserError" by blast
  show ?thesis
  proof (cases v)
    case Data_augmentation
    with f c show ?thesis
      by (auto simp: scrape_def scrape_school_info_def scrape_try_def scrape_handlers_def
            is_RequestException_def is_Exception_def)
  next
    case Data_scrap
    with f c show ?thesis
      by (auto simp: scrape_def scrape_school_info_ds_def scrape_try_ds_def scrape_handlers_def
            is_RequestException_def is_Exception_def)
  qed
qed

text \<open>
  What holds of the page scraper of either file. It returns to its caller whatever the
  world answers: every exception of its steps is caught by one of its handlers. When the
  request for the main page fails, or its status is an error, or the parser fails, the
  result is the all-empty PageInfo. When a subpage's address has been resolved and the
  request for it fails in one of these ways, the loop over the anchors goes on with the
  next anchor and the PageInfo (and in \<open>data_scrap.py\<close> the addresses collected) as they
  were.
\<close>

lemma scrape_returns_and_skips:
  "(\<exists>info s'. scrape v w url state_ut s = (Returned info, s'))
   \<and> ((\<forall>pg. http_get w (now s) url \<noteq> Html pg)
        \<longrightarrow> fst (scrape v w url state_ut s) = Returned empty_info)
   \<and> (is_subpage_link href \<and> resolve w url href = Returned target
        \<and> (\<forall>pg. http_get w (now s) target \<noteq> Html pg)
        \<longrightarrow> follow_links w url state_ut (href # rest) (info, s)
              = follow_links w url state_ut rest (info, emit (Page_request target) s)
          \<and> follow_links_ds w url state_ut (href # rest) (info, addresses, s)
              = follow_links_ds w url state_ut rest
                  (info, addresses, emit (Page_request target) s))"
proof (intro conjI impI)
  show "\<exists>info s'. scrape v w url state_ut s = (Returned info, s')"
    by (rule scrape_returns)
next
  assume "\<forall>pg. http_get w (now s) url \<noteq> Html pg"
  then show "fst (scrape v w url state_ut s) = Returned empty_info"
    by (rule scrape_main_failure)
next
  assume a: "is_subpage_link href \<and> resolve w url href = Returned target
        \<and> (\<forall>pg. http_get w (now s) target \<noteq> Html pg)"
  then obtain e where f: "fetch w target s = (Raised e, emit (Page_request target) s)"
    using fetch_failed by blast
  with a show "follow_links w url state_ut (href # rest) (info, s)
              = follow_links w url state_ut rest (info, emit (Page_request target) s)"
    by simp
  from a f show "follow_links_ds w url state_ut (href # rest) (info, addresses, s)
              = follow_links_ds w url state_ut rest
                  (info, addresses, emit (Page_request target) s)"
    by simp
qed

text \<open>
  C7 at a failing input. The first anchor of the page is \<open>//[about\<close>, the second
  \<open>/contact\<close>. \<open>urljoin\<close> is called before the inner \<open>try\<close>, so its \<open>ValueError\<close> on the
  first anchor goes to the outer handler: the scraper returns, but the loop over the
  anchors has ended, the contact page is never requested and its e-mail address is lost;
  in \<open>data_scrap.py\<close> the addresses collected so far are lost too. The same page without
  the first anchor gives the e-mail address, and in \<open>data_scrap.py\<close> the address.
\<close>

theorem urljoin_failure_ends_link_loop:
  "is_subpage_link ''//[about''
   \<and> resolve campus ''http://a.example'' ''//[about'' = Raised ValueError
   \<and> scrape_school_info campus ''http://a.example'' ''Maharashtra'' (init_scraper [])
       = (Returned empty_info,
          (init_scraper [])\<lparr>trace := [Page_request ''http://a.example'',
                                      Print (Failed_to_scrape ''http://a.example'')]\<rparr>)
   \<and> fst (scrape_school_info campus ''http://b.example'' ''Maharashtra'' (init_scraper []))
       = Returned (empty_info\<lparr>Email := ''office@school.example''\<rparr>)
   \<and> scrape_school_info_ds campus ''http://a.example'' ''Maharashtra'' (init_scraper [])
       = (Returned empty_info,
          (init_scraper [])\<lparr>trace := [Page_request ''http://a.example'',
                                      Print (Failed_to_scrape ''http://a.example'')]\<rparr>)
   \<and> fst (scrape_school_info_ds campus ''http://b.example'' ''Maharashtra'' (init_scraper []))
       = Returned (empty_info\<lparr>Address := ''12 School Road, Pune'',
                               Email := ''office@school.example''\<rparr>)"
  by code_simp

text \<open>With the anchor that does not resolve, the e-mail address of the contact page is lost.\<close>

theorem urljoin_failure_ends_link_loop_witness:
  "fst (scrape_school_info campus ''http://a.example'' ''Maharashtra'' (init_scraper []))
   \<noteq> fst (scrape_school_info campus ''http://b.example'' ''Maharashtra'' (init_scraper []))"
  using urljoin_failure_ends_link_loop by (simp add: empty_info_def)

section \<open>Page scraper: what overwrites what\<close>

text \<open>
  The merge of the subpages and of the candidate sites keeps a field that is set.
\<close>

lemma merge_missing_keeps:
  "(District info \<noteq> [] \<longrightarrow> District (merge_missing info new_info) = District info)
   \<and> (Address info \<noteq> [] \<longrightarrow> Address (merge_missing info new_info) = Address info)
   \<and> (Tel info \<noteq> [] \<longrightarrow> Tel (merge_missing info new_info) = Tel info)
   \<and> (Email info \<noteq> [] \<longrightarrow> Email (merge_missing info new_info) = Email info)"
  by (simp add: merge_missing_def)

text \<open>
  In \<open>data_augmentation.py\<close> the main page's extraction replaces all four fields, so the
  address of the location element never reaches the loop over the anchors.
\<close>

lemma scrape_try_drops_structured_address:
  "http_get w (now s) url = Html soup \<Longrightarrow>
   scrape_try w url state_ut s
     = follow_links w url state_ut (hrefs soup)
         (extract_info w (page_text soup) state_ut, emit (Page_request url) s)"
  by (simp add: scrape_try_def fetch_def Let_def)

text \<open>
  C1 at a failing input. The page has a location element with the address
  \<open>12 School Road, Pune\<close> and its text has no address line. \<open>data_augmentation.py\<close> returns
  an empty Address: \<open>info.update\<close> has overwritten the address of the location element.
  \<open>data_scrap.py\<close> returns that address.
\<close>

theorem structured_address_overwritten:
  "http_get brochure 0 ''http://school.example''
     = Html \<lparr>loc_icon = Some ''12 School Road, Pune'', page_text = ''Welcome to our school'',
              hrefs = [''/contact'']\<rparr>
   \<and> Address (extract_info brochure ''Welcome to our school'' ''Maharashtra'') = []
   \<and> fst (scrape_school_info brochure ''http://school.example'' ''Maharashtra'' (init_scraper []))
       = Returned empty_info
   \<and> fst (scrape_school_info_ds brochure ''http://school.example'' ''Maharashtra''
            (init_scraper []))
       = Returned (empty_info\<lparr>Address := ''12 School Road, Pune''\<rparr>)"
  by code_simp

text \<open>The two files disagree on this page.\<close>

theorem structured_address_overwritten_witness:
  "fst (scrape_school_info brochure ''http://school.example'' ''Maharashtra'' (init_scraper []))
   \<noteq> fst (scrape_school_info_ds brochure ''http://school.example'' ''Maharashtra''
            (init_scraper []))"
  using structured_address_overwritten by (simp add: empty_info_def)

section \<open>Steps that touch no record\<close>

lemma extends_refl [simp]: "extends s s"
  by (simp add: extends_def)

lemma extends_trans: "extends s s1 \<Longrightarrow> extends s1 s2 \<Longrightarrow> extends s s2"
  by (auto simp: extends_def)

lemma extends_emit:
  "row_index e = None \<Longrightarrow> extends s s1 \<Longrightarrow> extends s (emit e s1)"
  by (auto simp: extends_def emit_def)

lemma extends_emit0: "row_index e = None \<Longrightarrow> extends s (emit e s)"
  by (simp add: extends_emit)

lemma extends_search_attempts:
  "extends s0 s \<Longrightarrow> extends s0 (snd (search_attempts w name q retries as s))"
proof (induction as arbitrary: s)
  case Nil
  then show ?case by (simp add: extends_emit)
next
  case (Cons a as)
  show ?case
  proof (cases "search_request w q (now s)")
    case (Raised e)
    with Cons.prems show ?thesis
      by (auto simp: Let_def intro!: Cons.IH extends_emit)
  next
    case (Returned ws)
    with Cons.prems show ?thesis
      by (cases ws) (auto simp: Let_def intro!: Cons.IH extends_emit)
  qed
qed

lemma extends_search:
  "extends s (snd (search_school_websites w school_name state_ut retries s))"
  by (simp add: search_school_websites_def extends_search_attempts)

lemma extends_fetch: "extends s0 s \<Longrightarrow> extends s0 (snd (fetch w url s))"
  by (simp add: fetch_def extends_emit)

lemma extends_follow_links:
  "extends s0 s \<Longrightarrow> extends s0 (snd (snd (follow_links w url state_ut links (info, s))))"
proof (induction links arbitrary: info s)
  case Nil
  then show ?case by simp
next
  case (Cons href rest)
  show ?case
  proof (cases "is_subpage_link href")
    case False
    with Cons show ?thesis by simp
  next
    case True
    show ?thesis
    proof (cases "resolve w url href")
      case (Raised x)
      with True Cons.prems show ?thesis by simp
    next
      case (Returned target)
      obtain r s1 where f: "fetch w target s = (r, s1)" by (cases "fetch w target s")
      with extends_fetch[OF Cons.prems, of w target] have "extends s0 s1" by simp
      with True Returned f show ?thesis
        by (cases r) (auto intro!: Cons.IH)
    qed
  qed
qed

lemma extends_follow_links_ds:
  "extends s0 s \<Longrightarrow>
   extends s0 (snd (snd (snd (follow_links_ds w url state_ut links (info, addresses, s)))))"
proof (induction links arbitrary: info addresses s)
  case Nil
  then show ?case by simp
next
  case (Cons href rest)
  show ?case
  proof (cases "is_subpage_link href")
    case False
    with Cons show ?thesis by simp
  next
    case True
    show ?thesis
    proof (cases "resolve w url href")
      case (Raised x)
      with True Cons.prems show ?thesis by simp
    next
      case (Returned target)
      obtain r s1 where f: "fetch w target s = (r, s1)" by (cases "fetch w target s")
      with extends_fetch[OF Cons.prems, of w target] have "extends s0 s1" by simp
      with True Returned f show ?thesis
        by (cases r) (auto simp: Let_def intro!: Cons.IH)
    qed
  qed
qed

lemma extends_scrape_try: "extends s (snd (snd (scrape_try w url state_ut s)))"
proof -
  obtain r s1 where f: "fetch w url s = (r, s1)" by (cases "fetch w url s")
  with extends_fetch[of s s w url] have e: "extends s s1" by simp
  show ?thesis
  proof (cases r)
    case (Raised x)
    with f e show ?thesis by (simp add: scrape_try_def)
  next
    case (Returned soup)
    with f extends_follow_links[OF e, of w url state_ut "hrefs soup"] show ?thesis
      by (simp add: scrape_try_def Let_def)
  qed
qed

lemma extends_scrape_try_ds: "extends s (snd (snd (scrape_try_ds w url state_ut s)))"
proof -
  obtain r s1 where f: "fetch w url s = (r, s1)" by (cases "fetch w url s")
  with extends_fetch[of s s w url] have e: "extends s s1" by simp
  show ?thesis
  proof (cases r)
    case (Raised x)
    with f e show ?thesis by (simp add: scrape_try_ds_def)
  next
    case (Returned soup)
    let ?fl = "follow_links_ds w url state_ut (hrefs soup)
                 (merge_contact empty_info (extract_info_ds w (page_text soup) state_ut),
                  add_address (extract_info_ds w (page_text soup) state_ut)
                    (case loc_icon soup of Some a \<Rightarrow> [a] | None \<Rightarrow> []), s1)"
    obtain x info addresses s2 where fl: "?fl = (x, info, addresses, s2)"
      by (cases ?fl) auto
    with extends_follow_links_ds[OF e, of w url state_ut "hrefs soup"] have "extends s s2"
      by (metis snd_conv)
    with Returned f fl show ?thesis
      by (cases x) (simp_all add: scrape_try_ds_def Let_def)
  qed
qed

lemma extends_scrape_handlers:
  "extends s (snd (snd r)) \<Longrightarrow> extends s (snd (scrape_handlers url r))"
  by (cases r) (auto simp: scrape_handlers_def extends_emit split: option.splits)

lemma extends_scrape: "extends s (snd (scrape v w url state_ut s))"
  by (cases v)
     (simp_all add: scrape_def scrape_school_info_def scrape_school_info_ds_def
        extends_scrape_handlers extends_scrape_try extends_scrape_try_ds)

section \<open>Orchestrator: one row\<close>

lemma rows_handled_emit:
  "rows_handled (emit e s)
     = rows_handled s @ (case row_index e of None \<Rightarrow> [] | Some i \<Rightarrow> [i])"
  by (simp add: rows_handled_def emit_def map_filter_def split: option.splits)

lemma map_filter_all_None:
  "list_all (\<lambda>e. f e = None) evs \<Longrightarrow> List.map_filter f evs = []"
  by (induction evs) (auto simp: map_filter_def)

lemma rows_handled_extends: "extends s s' \<Longrightarrow> rows_handled s' = rows_handled s"
  by (auto simp: extends_def rows_handled_def map_filter_all_None)
     (simp add: map_filter_def list_all_iff)

lemma rows_handled_save [simp]: "rows_handled (save_to_json w s) = rows_handled s"
  by (simp add: save_to_json_def rows_handled_def emit_def map_filter_def)

lemma rows_handled_append_record [simp]: "rows_handled (append_record r s) = rows_handled s"
  by (simp add: append_record_def rows_handled_def)

lemma processed_data_emit [simp]: "processed_data (emit e s) = processed_data s"
  by (simp add: emit_def)

lemma processed_data_save [simp]: "processed_data (save_to_json w s) = processed_data s"
  by (simp add: save_to_json_def)

lemma json_file_save:
  "writable w (now s) \<Longrightarrow> can_write (json_ok w) (processed_data s) \<Longrightarrow>
   json_file (save_to_json w s) = Records (processed_data s)"
  by (simp add: save_to_json_def emit_def)

lemma json_file_emit [simp]: "json_file (emit e s) = json_file s"
  by (simp add: emit_def)

lemma processed_data_append_record [simp]:
  "processed_data (append_record r s) = processed_data s @ [r]"
  by (simp add: append_record_def)

lemma scrape_all_result:
  "extends s0 s \<Longrightarrow>
   \<exists>m s'. scrape_all v w state_ut urls (merged, s) = (Returned m, s') \<and> extends s0 s'"
proof (induction urls arbitrary: merged s)
  case Nil
  then show ?case by simp
next
  case (Cons url rest)
  from scrape_returns[of v w url state_ut s] obtain info s1 where
    r: "scrape v w url state_ut s = (Returned info, s1)" by blast
  with extends_scrape[of s v w url state_ut] have "extends s s1" by simp
  with Cons.prems have "extends s0 s1" by (rule extends_trans)
  from Cons.IH[OF this] r show ?case by simp
qed

text \<open>What one call of \<open>process_school\<close> does, case by case.\<close>

lemma process_school_KeyError:
  "map_of row_data ''School'' = None \<or> map_of row_data ''State/UT'' = None \<Longrightarrow>
   process_school v w row_data index total_rows s = (Raised KeyError, s)"
  by (auto simp: process_school_def split: option.splits)

lemma process_school_raised:
  assumes "map_of row_data ''School'' = Some c1" "map_of row_data ''State/UT'' = Some c2"
    "is_already_processed (processed_data s) (strip (replace_newlines (str_of w c1)))
       (strip (replace_newlines (str_of w c2))) = Raised e"
  shows "process_school v w row_data index total_rows s = (Raised e, s)"
  using assms by (simp add: process_school_def Let_def)

lemma process_school_skipped:
  assumes "map_of row_data ''School'' = Some c1" "map_of row_data ''State/UT'' = Some c2"
    "is_already_processed (processed_data s) (strip (replace_newlines (str_of w c1)))
       (strip (replace_newlines (str_of w c2))) = Returned True"
  shows "process_school v w row_data index total_rows s
         = (Returned (), emit (Print (Already_processed index
                                 (strip (replace_newlines (str_of w c1))))) s)"
  using assms by (simp add: process_school_def Let_def)

lemma process_school_no_website:
  assumes "map_of row_data ''School'' = Some c1" "map_of row_data ''State/UT'' = Some c2"
    "is_already_processed (processed_data s) (strip (replace_newlines (str_of w c1)))
       (strip (replace_newlines (str_of w c2))) = Returned False"
    "search_school_websites w (strip (replace_newlines (str_of w c1)))
       (strip (replace_newlines (str_of w c2))) 5
       (emit (Print (Processing index (strip (replace_newlines (str_of w c1)))
                       (strip (replace_newlines (str_of w c2))))) s) = ([], s2)"
  shows "process_school v w row_data index total_rows s
         = (Returned (), save_to_json w (append_record (blank_record row_data) s2))"
  using assms by (simp add: process_school_def Let_def)

lemma process_school_enriched:
  assumes "map_of row_data ''School'' = Some c1" "map_of row_data ''State/UT'' = Some c2"
    "is_already_processed (processed_data s) (strip (replace_newlines (str_of w c1)))
       (strip (replace_newlines (str_of w c2))) = Returned False"
    "search_school_websites w (strip (replace_newlines (str_of w c1)))
       (strip (replace_newlines (str_of w c2))) 5
       (emit (Print (Processing index (strip (replace_newlines (str_of w c1)))
                       (strip (replace_newlines (str_of w c2))))) s) = (site # sites, s2)"
    "scrape_all v w (strip (replace_newlines (str_of w c2))) (site # sites) (empty_info, s2)
       = (Returned merged_info, s3)"
  shows "process_school v w row_data index total_rows s
         = (Returned (),
            emit (Sleep 1)
             (save_to_json w
               (append_record
                 (update_info merged_info
                    (AList.update ''Website'' (Text site) (blank_record row_data)))
                 (emit (Print (Final_merged (strip (replace_newlines (str_of w c1)))
                    (Email merged_info \<noteq> []) (Tel merged_info \<noteq> [])
                    (District merged_info \<noteq> []) (Address merged_info \<noteq> []))) s3))))"
  using assms by (simp add: process_school_def Let_def)

lemma can_write_all: "\<forall>n. ok n \<Longrightarrow> can_write ok records"
  by (auto simp: can_write_def list_all_iff split: cell.splits)

lemma json_mirror:
  "\<forall>t. writable w t \<Longrightarrow> \<forall>n. json_ok w n \<Longrightarrow>
   json_file (save_to_json w s0) = Records (processed_data s0)"
  by (simp add: save_to_json_def can_write_all emit_def)

lemma is_already_processed_exn:
  "is_already_processed data school_name state_ut = Raised e \<Longrightarrow> e = AttributeError"
  by (induction data)
     (auto simp: strip_lower_def split: outcome.splits cell.splits if_splits)

lemma process_school_summary:
  assumes p: "process_school v w row_data index total_rows s = (out, s')"
  shows "(\<exists>e. out = Raised e \<and> e \<noteq> KeyboardInterrupt \<and> s' = s)
       \<or> (out = Returned () \<and> processed_data s' = processed_data s
            \<and> rows_handled s' = rows_handled s @ [index])
       \<or> (out = Returned () \<and> rows_handled s' = rows_handled s @ [index]
            \<and> ((\<forall>t. writable w t) \<and> (\<forall>n. json_ok w n)
                 \<longrightarrow> json_file s' = Records (processed_data s'))
            \<and> (\<exists>record. processed_data s' = processed_data s @ [record]
                  \<and> appended row_data record))"
proof (cases "map_of row_data ''School''")
  case None
  with p process_school_KeyError[of row_data v w index total_rows s] show ?thesis by auto
next
  case c1: (Some c1)
  show ?thesis
  proof (cases "map_of row_data ''State/UT''")
    case None
    with p process_school_KeyError[of row_data v w index total_rows s] show ?thesis by auto
  next
    case c2: (Some c2)
    let ?name = "strip (replace_newlines (str_of w c1))"
    let ?state = "strip (replace_newlines (str_of w c2))"
    show ?thesis
    proof (cases "is_already_processed (processed_data s) ?name ?state")
      case (Raised e)
      with is_already_processed_exn have "e = AttributeError" by blast
      with p process_school_raised[OF c1 c2 Raised, of v index total_rows] show ?thesis
        by auto
    next
      case (Returned dup)
      show ?thesis
      proof (cases dup)
        case True
        with p Returned process_school_skipped[OF c1 c2, of s w v index total_rows]
        show ?thesis by (auto simp: rows_handled_emit)
      next
        case False
        let ?s1 = "emit (Print (Processing index ?name ?state)) s"
        obtain sites s2 where
          se: "search_school_websites w ?name ?state 5 ?s1 = (sites, s2)"
          by (cases "search_school_websites w ?name ?state 5 ?s1")
        with extends_search[of ?s1 w ?name ?state 5] have e2: "extends ?s1 s2" by simp
        then have r2: "rows_handled s2 = rows_handled s @ [index]"
          by (simp add: rows_handled_extends rows_handled_emit)
        from e2 have d2: "processed_data s2 = processed_data s"
          by (simp add: extends_def)
        show ?thesis
        proof (cases sites)
          case Nil
          with p Returned False se
            process_school_no_website[OF c1 c2, of s w index s2 v total_rows]
          have "out = Returned ()"
            "s' = save_to_json w (append_record (blank_record row_data) s2)" by auto
          with r2 d2 show ?thesis by (simp add: appended_def json_mirror)
        next
          case (Cons site rest)
          from scrape_all_result[OF e2, of v w ?state "site # rest" empty_info]
          obtain m s3 where
            sa: "scrape_all v w ?state (site # rest) (empty_info, s2) = (Returned m, s3)"
            and e3: "extends ?s1 s3" by blast
          from e3 have r3: "rows_handled s3 = rows_handled s @ [index]"
            by (simp add: rows_handled_extends rows_handled_emit)
          from e3 have d3: "processed_data s3 = processed_data s"
            by (simp add: extends_def)
          from p Returned False se Cons sa
            process_school_enriched[OF c1 c2, of s w index site rest s2 v m s3 total_rows]
          have "out = Returned ()"
            "s' = emit (Sleep 1) (save_to_json w (append_record
                   (update_info m (AList.update ''Website'' (Text site) (blank_record row_data)))
                   (emit (Print (Final_merged ?name (Email m \<noteq> []) (Tel m \<noteq> [])
                      (District m \<noteq> []) (Address m \<noteq> []))) s3)))" by auto
          with r3 d3 show ?thesis
            by (auto simp: appended_def rows_handled_emit json_mirror)
        qed
      qed
    qed
  qed
qed

section \<open>Orchestrator: columns passed through\<close>

lemma map_of_appended:
  "appended row_data record \<Longrightarrow> k \<notin> set enrichment_fields \<Longrightarrow>
   map_of record k = map_of row_data k"
  by (auto simp: appended_def blank_record_def update_info_def enrichment_fields_def
        update_conv')


text \<open>
  C9. Whenever \<open>process_school\<close> appends a record for a row, every column of the row other
  than Website, District, Address, Tel and Email has in the record the value it has in the
  row.
\<close>

theorem other_columns_pass_through:
  "process_school v w row_data index total_rows s = (out, s')
   \<and> processed_data s' = processed_data s @ [record]
   \<and> k \<notin> set enrichment_fields
   \<longrightarrow> map_of record k = map_of row_data k"
proof
  assume a: "process_school v w row_data index total_rows s = (out, s')
   \<and> processed_data s' = processed_data s @ [record]
   \<and> k \<notin> set enrichment_fields"
  then have p: "process_school v w row_data index total_rows s = (out, s')" by simp
  from process_school_summary[OF p] a have "appended row_data record" by auto
  with a show "map_of record k = map_of row_data k" by (simp add: map_of_appended)
qed

text \<open>The row with a column of its own, processed without network.\<close>

lemma offline_row:
  "process_school Data_augmentation offline hill_row 0 1 (init_scraper [])
   = (Returned (),
      \<lparr>processed_data =
         [[(''School'', Text ''Hill School''), (''State/UT'', Text ''Goa''),
           (''Rank'', Opaque 7), (''Website'', Text []), (''District'', Text []),
           (''Address'', Text []), (''Tel'', Text []), (''Email'', Text [])]],
       json_file =
         Records
          [[(''School'', Text ''Hill School''), (''State/UT'', Text ''Goa''),
            (''Rank'', Opaque 7), (''Website'', Text []), (''District'', Text []),
            (''Address'', Text []), (''Tel'', Text []), (''Email'', Text [])]],
       excel_file = None,
       trace =
         [Print (Processing 0 ''Hill School'' ''Goa''),
          Search_request ''Hill School Goa official website'',
          Print (Search_attempt_failed 1 ''Hill School''), Sleep 2,
          Search_request ''Hill School Goa official website'',
          Print (Search_attempt_failed 2 ''Hill School''), Sleep 2,
          Search_request ''Hill School Goa official website'',
          Print (Search_attempt_failed 3 ''Hill School''), Sleep 2,
          Search_request ''Hill School Goa official website'',
          Print (Search_attempt_failed 4 ''Hill School''), Sleep 2,
          Search_request ''Hill School Goa official website'',
          Print (Search_attempt_failed 5 ''Hill School''),
          Print (No_websites_found ''Hill School''), Print Data_saved]\<rparr>)"
  by code_simp

text \<open>Its \<open>Rank\<close> column is in the appended record as it was.\<close>

theorem other_columns_pass_through_witness:
  "map_of (last (processed_data
      (snd (process_school Data_augmentation offline hill_row 0 1 (init_scraper [])))))
     ''Rank'' = Some (Opaque 7)"
proof -
  let ?p = "process_school Data_augmentation offline hill_row 0 1 (init_scraper [])"
  have h: "?p = (fst ?p, snd ?p)
     \<and> processed_data (snd ?p)
        = processed_data (init_scraper [])
          @ [[(''School'', Text ''Hill School''), (''State/UT'', Text ''Goa''),
              (''Rank'', Opaque 7), (''Website'', Text []), (''District'', Text []),
              (''Address'', Text []), (''Tel'', Text []), (''Email'', Text [])]]
     \<and> ''Rank'' \<notin> set enrichment_fields"
    using offline_row by (simp add: init_scraper_def enrichment_fields_def)
  from other_columns_pass_through[THEN mp, OF h] offline_row
  show ?thesis by (simp add: hill_row_def)
qed

section \<open>Orchestrator: the row loop\<close>


lemma run_loop_rows:
  "rows_handled (run_loop v w n K rows s)
     = rows_handled s @ map fst (filter (\<lambda>p. \<not> fst p < K) rows)"
proof (induction rows arbitrary: s)
  case Nil
  show ?case by simp
next
  case (Cons p rest)
  obtain index row where pr: "p = (index, row)" by (cases p)
  show ?case
  proof (cases "index < K")
    case True
    with pr Cons.IH[of s] show ?thesis by simp
  next
    case False
    obtain out s1 where ps: "process_school v w row index n s = (out, s1)"
      by (cases "process_school v w row index n s")
    from process_school_summary[OF ps]
    consider (raised) e where "out = Raised e" "e \<noteq> KeyboardInterrupt" "s1 = s"
      | (returned) "out = Returned ()" "rows_handled s1 = rows_handled s @ [index]"
      by blast
    then show ?thesis
    proof cases
      case raised
      with pr False ps Cons.IH[of "emit (Print (Error_processing_row index)) s"]
      show ?thesis by (simp add: rows_handled_emit)
    next
      case returned
      with pr False ps Cons.IH[of s1] show ?thesis by simp
    qed
  qed
qed

lemma zip_upt_snoc:
  "zip [0 ..< length (xs @ [x])] (xs @ [x]) = zip [0 ..< length xs] xs @ [(length xs, x)]"
  by simp

lemma handled_indices:
  "map fst (filter (\<lambda>p. \<not> fst p < K) (zip [0 ..< length df] df)) = [K ..< length df]"
proof (induction df rule: rev_induct)
  case Nil
  show ?case by simp
next
  case (snoc x xs)
  show ?case
  proof (cases "length xs < K")
    case True
    with snoc show ?thesis by (simp only: zip_upt_snoc) simp
  next
    case False
    then have "[K ..< length (xs @ [x])] = [K ..< length xs] @ [length xs]" by simp
    with snoc False show ?thesis by (simp only: zip_upt_snoc) simp
  qed
qed


lemma run_loop_skip:
  "\<forall>p \<in> set pre. fst p < K \<Longrightarrow>
   run_loop v w n K (pre @ rows) s = run_loop v w n K rows s"
  by (induction pre) auto

lemma run_loop_all:
  "\<forall>p \<in> set rows. \<not> fst p < K \<Longrightarrow>
   run_loop v w n K rows s = run_loop v w n 0 rows s"
proof (induction rows arbitrary: s)
  case Nil
  show ?case by simp
next
  case (Cons p rest)
  obtain index row where pr: "p = (index, row)" by (cases p)
  with Cons show ?case
    by (auto split: prod.splits outcome.splits)
qed

lemma in_take_upt: "a \<in> set (take K [0 ..< n]) \<Longrightarrow> a < K"
  by (induction n) (auto simp: take_Cons' split: if_splits)

lemma run_loop_drop:
  "run_loop v w n K (zip [0 ..< length df] df) s
     = run_loop v w n 0 (drop K (zip [0 ..< length df] df)) s"
proof -
  let ?z = "zip [0 ..< length df] df"
  have pre: "\<forall>p \<in> set (take K ?z). fst p < K"
  proof
    fix p assume "p \<in> set (take K ?z)"
    then have "p \<in> set (zip (take K [0 ..< length df]) (take K df))"
      by (simp add: take_zip)
    then have "fst p \<in> set (take K [0 ..< length df])"
      by (metis set_zip_leftD prod.collapse)
    then show "fst p < K" by (rule in_take_upt)
  qed
  have post: "\<forall>p \<in> set (drop K ?z). \<not> fst p < K"
  proof
    fix p assume "p \<in> set (drop K ?z)"
    then have "p \<in> set (zip (drop K [0 ..< length df]) (drop K df))"
      by (simp add: drop_zip)
    then have "fst p \<in> set (drop K [0 ..< length df])"
      by (metis set_zip_leftD prod.collapse)
    then show "\<not> fst p < K" by (simp add: drop_upt)
  qed
  have "run_loop v w n K ?z s = run_loop v w n K (take K ?z @ drop K ?z) s" by simp
  also have "\<dots> = run_loop v w n K (drop K ?z) s" using pre by (rule run_loop_skip)
  also have "\<dots> = run_loop v w n 0 (drop K ?z) s" using post by (rule run_loop_all)
  finally show ?thesis .
qed

section \<open>Orchestrator: the run\<close>

lemma processed_data_save_to_excel [simp]:
  "processed_data (save_to_excel w s) = processed_data s"
  by (simp add: save_to_excel_def emit_def)

lemma rows_handled_save_to_excel [simp]: "rows_handled (save_to_excel w s) = rows_handled s"
  by (simp add: save_to_excel_def rows_handled_def emit_def map_filter_def)


lemma run_loop_rows_from:
  assumes "rows_handled s2 = rows_handled s"
  shows "rows_handled (run_loop v w (length df) K (zip [0 ..< length df] df) s2)
           = rows_handled s @ [K ..< length df]"
  using assms run_loop_rows[of v w "length df" K "zip [0 ..< length df] df" s2]
  by (simp add: handled_indices)


lemma run_rows:
  "rows_handled (run v w df s)
     = rows_handled s @ [length (processed_data s) ..< length df]"
proof (cases "processed_data s = []")
  case True
  let ?s2 = "emit (Print (Loaded_records (length df))) (emit (Print Loading_excel) s)"
  have "rows_handled ?s2 = rows_handled s" by (simp add: rows_handled_emit)
  from run_loop_rows_from[OF this, of v w df 0] True show ?thesis
    by (simp add: run_def Let_def rows_handled_emit)
next
  case False
  let ?s2 = "emit (Print (Resuming (length (processed_data s) + 1) (length df)))
               (emit (Print (Loaded_records (length df))) (emit (Print Loading_excel) s))"
  have "rows_handled ?s2 = rows_handled s" by (simp add: rows_handled_emit)
  from run_loop_rows_from[OF this, of v w df "length (processed_data s)"] False
  show ?thesis
    by (simp add: run_def Let_def rows_handled_emit)
qed

text \<open>
  C6. With \<open>K\<close> records in the checkpoint, the row loop over an \<open>N\<close>-row input does what a
  loop without the resume test does on the rows from position \<open>K\<close> on: the rows before
  have no effect at all, so no search is made for them. The rows a run handles, in order,
  are those at the positions \<open>K\<close> to \<open>N - 1\<close>, whatever the rows and the checkpoint hold: the
  test compares the position with the number of records.
\<close>

theorem resume_is_positional:
  "run_loop v w total_rows K (zip [0 ..< length df] df) s
     = run_loop v w total_rows 0 (drop K (zip [0 ..< length df] df)) s
   \<and> rows_handled (run v w df s)
       = rows_handled s @ [length (processed_data s) ..< length df]"
  using run_loop_drop run_rows by simp







text \<open>
  A checkpoint of one record and a roster of two rows: the run handles the row at position
  1 only, and sends no query for the row at position 0.
\<close>

theorem resume_is_positional_witness:
  "rows_handled (run Data_augmentation offline [old_row, hill_row]
                   (init_scraper [blank_record old_row])) = [1]
   \<and> requests_of (query_text ''Old School'' ''Goa'')
        (run Data_augmentation offline [old_row, hill_row]
           (init_scraper [blank_record old_row])) = 0
   \<and> requests_of (query_text ''Hill School'' ''Goa'')
        (run Data_augmentation offline [old_row, hill_row]
           (init_scraper [blank_record old_row])) = 5"
proof -
  have a: "rows_handled (init_scraper [blank_record old_row]) = []"
    by (simp add: init_scraper_def rows_handled_def map_filter_def)
  have b: "length (processed_data (init_scraper [blank_record old_row])) = 1"
    by (simp add: init_scraper_def)
  have c: "[1 ..< length [old_row, hill_row]] = [1]"
    by (simp add: upt_rec)
  have d: "requests_of (query_text ''Old School'' ''Goa'')
        (run Data_augmentation offline [old_row, hill_row]
           (init_scraper [blank_record old_row])) = 0
   \<and> requests_of (query_text ''Hill School'' ''Goa'')
        (run Data_augmentation offline [old_row, hill_row]
           (init_scraper [blank_record old_row])) = 5"
    by code_simp
  from resume_is_positional[THEN conjunct2, of Data_augmentation offline
         "[old_row, hill_row]" "init_scraper [blank_record old_row]"] a b c d
  show ?thesis by simp
qed

end
